theory Spec2Isabelle
  imports Main "HOL-Library.Sublist"
begin

section \<open>JavaScript values and the object store\<close>

text \<open>
  The metadata tuples of \<^verbatim>\<open>HasteFS.js\<close> hold strings, numbers and absent
  entries. Numbers are modelled as integers (modification times in milliseconds, byte
  sizes, the symlink flag); \<^verbatim>\<open>NaN\<close> and fractions are outside the model.
\<close>

datatype jsval = JUndefined | JNull | JNum int | JStr string

text \<open>Truthiness, as used by \<^verbatim>\<open>x ? a : b\<close>.\<close>

fun js_truthy :: "jsval \<Rightarrow> bool" where
  "js_truthy JUndefined = False"
| "js_truthy JNull = False"
| "js_truthy (JNum n) = (n \<noteq> 0)"
| "js_truthy (JStr s) = (s \<noteq> [])"

text \<open>The operator \<^verbatim>\<open>v ?? d\<close>.\<close>

definition js_nullish :: "jsval \<Rightarrow> jsval \<Rightarrow> jsval" where
  "js_nullish v d = (if v = JUndefined \<or> v = JNull then d else v)"

text \<open>An array read \<^verbatim>\<open>xs[i]\<close>: \<^verbatim>\<open>undefined\<close> beyond the end.\<close>

definition js_index :: "jsval list \<Rightarrow> nat \<Rightarrow> jsval" where
  "js_index xs i = (if i < length xs then xs ! i else JUndefined)"

text \<open>
  \<^verbatim>\<open>s.split(d)\<close> for strings: the pieces between the non-overlapping occurrences
  of \<open>d\<close>, found from the left; the characters of \<open>s\<close> when \<open>d\<close> is empty.
\<close>

function split_from :: "string \<Rightarrow> string \<Rightarrow> string \<Rightarrow> string list" where
  "split_from d acc [] = [rev acc]"
| "split_from d acc (c # cs) =
     (if d \<noteq> [] \<and> prefix d (c # cs)
      then rev acc # split_from d [] (drop (length d) (c # cs))
      else split_from d (c # acc) cs)"
  by pat_completeness auto
termination
  by (relation "measure (\<lambda>(d, acc, s). length s)") auto

definition js_split :: "string \<Rightarrow> string \<Rightarrow> string list" where
  "js_split s d = (if d = [] then map (\<lambda>c. [c]) s else split_from d [] s)"

text \<open>\<^verbatim>\<open>xs.join(d)\<close>.\<close>

fun js_join :: "string \<Rightarrow> string list \<Rightarrow> string" where
  "js_join d [] = []"
| "js_join d [x] = x"
| "js_join d (x # y # zs) = x @ d @ js_join d (y # zs)"

text \<open>
  Objects live in a store. An address holds an array (a metadata tuple) or a
  \<^verbatim>\<open>Map\<close> from string keys to tuple references; \<open>next_free\<close> is the first address
  not yet allocated. A \<^verbatim>\<open>Map\<close> is its list of entries in insertion order.
\<close>

type_synonym addr = nat

type_synonym FileData = "(string \<times> addr) list"

record heap =
  arrays :: "addr \<Rightarrow> jsval list"
  maps :: "addr \<Rightarrow> FileData"
  next_free :: addr

definition alloc_array :: "heap \<Rightarrow> jsval list \<Rightarrow> addr \<times> heap" where
  "alloc_array h xs =
     (next_free h, h\<lparr>arrays := (arrays h)(next_free h := xs), next_free := Suc (next_free h)\<rparr>)"

definition alloc_map :: "heap \<Rightarrow> FileData \<Rightarrow> addr \<times> heap" where
  "alloc_map h es =
     (next_free h, h\<lparr>maps := (maps h)(next_free h := es), next_free := Suc (next_free h)\<rparr>)"

text \<open>\<^verbatim>\<open>Map.prototype.get\<close>, \<^verbatim>\<open>set\<close> and \<^verbatim>\<open>delete\<close> on the entry list:
  \<^verbatim>\<open>set\<close> keeps the position of a key that is present and appends a new one.\<close>

definition Map_get :: "FileData \<Rightarrow> string \<Rightarrow> addr option" where
  "Map_get es k = map_of es k"

primrec Map_set :: "FileData \<Rightarrow> string \<Rightarrow> addr \<Rightarrow> FileData" where
  "Map_set [] k v = [(k, v)]"
| "Map_set (e # es) k v = (if fst e = k then (k, v) # es else e # Map_set es k v)"

primrec Map_delete :: "FileData \<Rightarrow> string \<Rightarrow> FileData" where
  "Map_delete [] k = []"
| "Map_delete (e # es) k = (if fst e = k then Map_delete es k else e # Map_delete es k)"

text \<open>\<^verbatim>\<open>new Map(pairs)\<close>: the pairs are set one after the other.\<close>

definition Map_new :: "(string \<times> addr) list \<Rightarrow> FileData" where
  "Map_new pairs = foldl (\<lambda>m (k, v). Map_set m k v) [] pairs"

section \<open>The collaborators of the index\<close>

text \<open>
  The field layout of \<^verbatim>\<open>constants.js\<close> is not part of the sources at hand: the
  tuple index of each field and the dependency delimiter are parameters.
\<close>

record constants =
  ID :: nat
  MTIME :: nat
  SIZE :: nat
  DEPENDENCIES :: nat
  SHA1 :: nat
  SYMLINK :: nat
  DEPENDENCY_DELIM :: string

text \<open>
  Modelled from the spec: \<^verbatim>\<open>constants.js\<close> is missing; the spec asks for one tuple
  index per field and a delimiter character. This layout is used for concrete runs.
\<close>

definition H_layout :: constants where
  "H_layout = \<lparr>ID = 0, MTIME = 1, SIZE = 2, DEPENDENCIES = 4, SHA1 = 5, SYMLINK = 6,
     DEPENDENCY_DELIM = [CHR 0x00]\<rparr>"

text \<open>
  The platform's \<^verbatim>\<open>path\<close> module is a parameter as well: its separator,
  \<^verbatim>\<open>isAbsolute\<close>, \<^verbatim>\<open>normalize\<close>, \<^verbatim>\<open>relative\<close> and the two-argument
  \<^verbatim>\<open>resolve\<close>.
\<close>

record path_api =
  path_sep :: char
  path_isAbsolute :: "string \<Rightarrow> bool"
  path_normalize :: "string \<Rightarrow> string"
  path_relative :: "string \<Rightarrow> string \<Rightarrow> string"
  path_resolve :: "string \<Rightarrow> string \<Rightarrow> string"

text \<open>
  Modelled from the spec: \<^verbatim>\<open>lib/fast_path.js\<close> is missing. Its \<^verbatim>\<open>relative\<close>
  assumes the path is under the root and strips the prefix, and otherwise falls back to
  the general relative-path computation; its \<^verbatim>\<open>resolve\<close> is the absolute-path
  resolution of a relative path from a root.
\<close>

definition fastPath_relative :: "path_api \<Rightarrow> string \<Rightarrow> string \<Rightarrow> string" where
  "fastPath_relative P root filename =
     (if prefix (root @ [path_sep P]) filename
      then drop (length root + 1) filename
      else path_relative P root filename)"

definition fastPath_resolve :: "path_api \<Rightarrow> string \<Rightarrow> string \<Rightarrow> string" where
  "fastPath_resolve P root normalPath = path_resolve P root normalPath"

subsection \<open>The POSIX instance of the path module\<close>

text \<open>
  Node's \<^verbatim>\<open>path.posix\<close>, segment by segment: empty and \<^verbatim>\<open>.\<close> segments are
  dropped, \<^verbatim>\<open>..\<close> removes the segment before it, and is kept at the front of a
  relative path. \<open>cwd\<close> is the working directory that \<^verbatim>\<open>resolve\<close> falls back to.
\<close>

definition posix_segment_step :: "bool \<Rightarrow> string list \<Rightarrow> string \<Rightarrow> string list" where
  "posix_segment_step allowAboveRoot res seg =
     (if seg = [] \<or> seg = ''.'' then res
      else if seg = ''..'' then
        (if res \<noteq> [] \<and> last res \<noteq> ''..'' then butlast res
         else if allowAboveRoot then res @ [''..'']
         else res)
      else res @ [seg])"

definition posix_normalizeString :: "string \<Rightarrow> bool \<Rightarrow> string" where
  "posix_normalizeString p allowAboveRoot =
     js_join ''/'' (foldl (posix_segment_step allowAboveRoot) [] (js_split p ''/''))"

definition posix_isAbsolute :: "string \<Rightarrow> bool" where
  "posix_isAbsolute p = (p \<noteq> [] \<and> hd p = CHR ''/'')"

definition posix_normalize :: "string \<Rightarrow> string" where
  "posix_normalize p =
     (if p = [] then ''.''
      else
        let isAbsolute = (hd p = CHR ''/'');
            trailingSeparator = (last p = CHR ''/'');
            q = posix_normalizeString p (\<not> isAbsolute)
        in if q = [] then (if isAbsolute then ''/'' else if trailingSeparator then ''./'' else ''.'')
           else (if isAbsolute then ''/'' else []) @ q @ (if trailingSeparator then ''/'' else []))"

text \<open>\<^verbatim>\<open>resolve(...args)\<close> reads its arguments from the right until one is absolute.\<close>

fun posix_resolve_args :: "string \<Rightarrow> string list \<Rightarrow> string \<Rightarrow> string \<times> bool" where
  "posix_resolve_args cwd [] resolvedPath = (cwd @ ''/'' @ resolvedPath, posix_isAbsolute cwd)"
| "posix_resolve_args cwd (p # ps) resolvedPath =
     (if p = [] then posix_resolve_args cwd ps resolvedPath
      else if posix_isAbsolute p then (p @ ''/'' @ resolvedPath, True)
      else posix_resolve_args cwd ps (p @ ''/'' @ resolvedPath))"

definition posix_resolve :: "string \<Rightarrow> string list \<Rightarrow> string" where
  "posix_resolve cwd args =
     (let (resolvedPath, resolvedAbsolute) = posix_resolve_args cwd (rev args) [];
          q = posix_normalizeString resolvedPath (\<not> resolvedAbsolute)
      in if resolvedAbsolute then ''/'' @ q else if q \<noteq> [] then q else ''.'')"

definition posix_segments :: "string \<Rightarrow> string list" where
  "posix_segments p = filter (\<lambda>s. s \<noteq> []) (js_split p ''/'')"

definition posix_relative :: "string \<Rightarrow> string \<Rightarrow> string \<Rightarrow> string" where
  "posix_relative cwd from to =
     (if from = to then []
      else
        let from' = posix_resolve cwd [from];
            to' = posix_resolve cwd [to]
        in if from' = to' then []
           else
             let fs = posix_segments from';
                 ts = posix_segments to';
                 n = length (longest_common_prefix fs ts)
             in js_join ''/'' (replicate (length fs - n) ''..'' @ drop n ts))"

definition posix :: "string \<Rightarrow> path_api" where
  "posix cwd = \<lparr>path_sep = CHR ''/'', path_isAbsolute = posix_isAbsolute,
     path_normalize = posix_normalize, path_relative = posix_relative cwd,
     path_resolve = (\<lambda>a b. posix_resolve cwd [a, b])\<rparr>"


section \<open>The file map index\<close>

datatype js_error = InvariantViolation string | Error string | TypeError string

record FileStats =
  fileType :: string
  modifiedTime :: int

text \<open>
  An index holds its root directory and a reference to its \<^verbatim>\<open>Map\<close> of files. The
  constructor stores the reference it is given. Every method takes the store, and a
  method that writes returns the new store. The private methods \<^verbatim>\<open>_normalizePath\<close>
  and \<^verbatim>\<open>_getFileData\<close> are \<open>priv_normalizePath\<close> and \<open>priv_getFileData\<close> here.
\<close>

record HasteFS =
  rootDir :: string
  files :: addr

definition constructor :: "string \<Rightarrow> addr \<Rightarrow> HasteFS" where
  "constructor r f = \<lparr>rootDir = r, files = f\<rparr>"

definition priv_normalizePath :: "path_api \<Rightarrow> HasteFS \<Rightarrow> string \<Rightarrow> string" where
  "priv_normalizePath P fs relativeOrAbsolutePath =
     (if path_isAbsolute P relativeOrAbsolutePath
      then fastPath_relative P (rootDir fs) relativeOrAbsolutePath
      else path_normalize P relativeOrAbsolutePath)"

definition files_set :: "heap \<Rightarrow> HasteFS \<Rightarrow> string \<Rightarrow> addr \<Rightarrow> heap" where
  "files_set h fs k v = h\<lparr>maps := (maps h)(files fs := Map_set (maps h (files fs)) k v)\<rparr>"

definition files_delete :: "heap \<Rightarrow> HasteFS \<Rightarrow> string \<Rightarrow> heap" where
  "files_delete h fs k = h\<lparr>maps := (maps h)(files fs := Map_delete (maps h (files fs)) k)\<rparr>"

definition remove :: "path_api \<Rightarrow> heap \<Rightarrow> HasteFS \<Rightarrow> string \<Rightarrow> addr option \<times> heap" where
  "remove P h fs filePath =
     (let normalPath = priv_normalizePath P fs filePath;
          fileMetadata = Map_get (maps h (files fs)) normalPath
      in case fileMetadata of
           None \<Rightarrow> (None, h)
         | Some m \<Rightarrow> (Some m, files_delete h fs normalPath))"

definition bulkAddOrModify :: "heap \<Rightarrow> HasteFS \<Rightarrow> addr \<Rightarrow> heap" where
  "bulkAddOrModify h fs changedFiles =
     foldl (\<lambda>h' (relativePath, metadata). files_set h' fs relativePath metadata)
       h (maps h changedFiles)"

definition addOrModify :: "path_api \<Rightarrow> heap \<Rightarrow> HasteFS \<Rightarrow> string \<Rightarrow> addr \<Rightarrow> heap" where
  "addOrModify P h fs filePath metadata =
     files_set h fs (priv_normalizePath P fs filePath) metadata"

text \<open>
  \<^verbatim>\<open>getSerializableSnapshot\<close>: every entry gets a new array holding the elements of
  its tuple (\<^verbatim>\<open>[...v]\<close>), and the pairs go into a new \<^verbatim>\<open>Map\<close>. The pair arrays
  and the array of pairs are dropped after the call and are left out of the store.
\<close>

fun copy_entries :: "heap \<Rightarrow> FileData \<Rightarrow> FileData \<times> heap" where
  "copy_entries h [] = ([], h)"
| "copy_entries h ((k, v) # es) =
     (let (v', h1) = alloc_array h (arrays h v);
          (es', h2) = copy_entries h1 es
      in ((k, v') # es', h2))"

definition getSerializableSnapshot :: "heap \<Rightarrow> HasteFS \<Rightarrow> addr \<times> heap" where
  "getSerializableSnapshot h fs =
     (let (pairs, h1) = copy_entries h (maps h (files fs))
      in alloc_map h1 (Map_new pairs))"

definition priv_getFileData :: "path_api \<Rightarrow> heap \<Rightarrow> HasteFS \<Rightarrow> string \<Rightarrow> addr option" where
  "priv_getFileData P h fs filePath =
     (case Map_get (maps h (files fs)) filePath of
        Some optimisticMetadata \<Rightarrow> Some optimisticMetadata
      | None \<Rightarrow> Map_get (maps h (files fs)) (priv_normalizePath P fs filePath))"

text \<open>\<^verbatim>\<open>(fileMetadata && fileMetadata[i]) ?? null\<close>\<close>

definition field_or_null :: "heap \<Rightarrow> addr option \<Rightarrow> nat \<Rightarrow> jsval" where
  "field_or_null h fileMetadata i =
     js_nullish (case fileMetadata of None \<Rightarrow> JUndefined | Some m \<Rightarrow> js_index (arrays h m) i) JNull"

definition getModuleName :: "path_api \<Rightarrow> constants \<Rightarrow> heap \<Rightarrow> HasteFS \<Rightarrow> string \<Rightarrow> jsval" where
  "getModuleName P H h fs file = field_or_null h (priv_getFileData P h fs file) (ID H)"

definition getSize :: "path_api \<Rightarrow> constants \<Rightarrow> heap \<Rightarrow> HasteFS \<Rightarrow> string \<Rightarrow> jsval" where
  "getSize P H h fs file = field_or_null h (priv_getFileData P h fs file) (SIZE H)"

text \<open>
  The dependency list read off a tuple. Calling \<^verbatim>\<open>split\<close> on a value that is
  not a string is a \<^verbatim>\<open>TypeError\<close>.
\<close>

definition record_dependencies :: "constants \<Rightarrow> jsval list \<Rightarrow> js_error + string list option" where
  "record_dependencies H fileMetadata =
     (let d = js_index fileMetadata (DEPENDENCIES H)
      in if js_truthy d
         then (case d of
                 JStr s \<Rightarrow> Inr (Some (js_split s (DEPENDENCY_DELIM H)))
               | _ \<Rightarrow> Inl (TypeError ''split is not a function''))
         else Inr (Some []))"

definition getDependencies ::
  "path_api \<Rightarrow> constants \<Rightarrow> heap \<Rightarrow> HasteFS \<Rightarrow> string \<Rightarrow> js_error + string list option" where
  "getDependencies P H h fs file =
     (case priv_getFileData P h fs file of
        Some m \<Rightarrow> record_dependencies H (arrays h m)
      | None \<Rightarrow> Inr None)"

definition getSha1 :: "path_api \<Rightarrow> constants \<Rightarrow> heap \<Rightarrow> HasteFS \<Rightarrow> string \<Rightarrow> jsval" where
  "getSha1 P H h fs file = field_or_null h (priv_getFileData P h fs file) (SHA1 H)"

definition exists :: "path_api \<Rightarrow> heap \<Rightarrow> HasteFS \<Rightarrow> string \<Rightarrow> bool" where
  "exists P h fs file = (priv_getFileData P h fs file \<noteq> None)"

definition getFileIterator :: "heap \<Rightarrow> HasteFS \<Rightarrow> string list" where
  "getFileIterator h fs = map fst (maps h (files fs))"

definition getAbsoluteFileIterator :: "path_api \<Rightarrow> heap \<Rightarrow> HasteFS \<Rightarrow> string list" where
  "getAbsoluteFileIterator P h fs = map (fastPath_resolve P (rootDir fs)) (getFileIterator h fs)"

text \<open>
  The stats read off a tuple; \<^verbatim>\<open>invariant\<close> throws when the modification time is
  not a number.
\<close>

definition record_linkStats :: "constants \<Rightarrow> jsval list \<Rightarrow> js_error + FileStats option" where
  "record_linkStats H fileMetadata =
     (let fileType = (if js_index fileMetadata (SYMLINK H) = JNum 0 then ''f'' else ''l'');
          modifiedTime = js_index fileMetadata (MTIME H)
      in case modifiedTime of
           JNum t \<Rightarrow> Inr (Some \<lparr>fileType = fileType, modifiedTime = t\<rparr>)
         | _ \<Rightarrow> Inl (InvariantViolation ''File in HasteFS missing modified time''))"

definition linkStats ::
  "path_api \<Rightarrow> constants \<Rightarrow> heap \<Rightarrow> HasteFS \<Rightarrow> string \<Rightarrow> js_error + FileStats option" where
  "linkStats P H h fs file =
     (case priv_getFileData P h fs file of
        None \<Rightarrow> Inr None
      | Some m \<Rightarrow> record_linkStats H (arrays h m))"

text \<open>
  A regular expression object: its compiled pattern, its \<^verbatim>\<open>g\<close> and \<^verbatim>\<open>y\<close> flags
  and its \<^verbatim>\<open>lastIndex\<close>. The pattern is the search it performs: \<open>re_exec s i\<close> is
  the end of the match found in \<open>s\<close> when the search starts at index \<open>i\<close>, if there is
  one. \<^verbatim>\<open>test\<close> starts at \<^verbatim>\<open>lastIndex\<close> and writes it back when one of the flags is
  set, and starts at 0 and leaves it alone otherwise.
\<close>

record RegExp =
  re_exec :: "string \<Rightarrow> nat \<Rightarrow> nat option"
  re_global :: bool
  re_sticky :: bool
  lastIndex :: nat

definition RegExp_test :: "RegExp \<Rightarrow> string \<Rightarrow> bool \<times> RegExp" where
  "RegExp_test re s =
     (let flagged = (re_global re \<or> re_sticky re);
          i = (if flagged then lastIndex re else 0)
      in if i > length s then (False, if flagged then re\<lparr>lastIndex := 0\<rparr> else re)
         else (case re_exec re s i of
                 None \<Rightarrow> (False, if flagged then re\<lparr>lastIndex := 0\<rparr> else re)
               | Some e \<Rightarrow> (True, if flagged then re\<lparr>lastIndex := e\<rparr> else re)))"

text \<open>
  \<^verbatim>\<open>matchFilesWithContext\<close>: the loop over the absolute paths, with its two
  \<^verbatim>\<open>continue\<close> branches. Every call of \<^verbatim>\<open>context.filter.test\<close> is made on the same
  object, whose state is passed along and returned beside the result.
  \<^verbatim>\<open>replace(/\\/g, '/')\<close> rewrites every backslash.
\<close>

definition backslash_to_slash :: "string \<Rightarrow> string" where
  "backslash_to_slash s = map (\<lambda>c. if c = CHR 0x5C then CHR ''/'' else c) s"

fun matchFilesWithContext_loop ::
  "path_api \<Rightarrow> string \<Rightarrow> bool \<Rightarrow> RegExp \<Rightarrow> string list \<Rightarrow> string list \<Rightarrow> string list \<times> RegExp" where
  "matchFilesWithContext_loop P root recursive flt acc [] = (acc, flt)"
| "matchFilesWithContext_loop P root recursive flt acc (file # rest) =
     (let filePath = fastPath_relative P root file;
          isUnderRoot = (filePath \<noteq> [] \<and> \<not> prefix ''..'' filePath)
      in if \<not> isUnderRoot then matchFilesWithContext_loop P root recursive flt acc rest
         else if \<not> recursive \<and> path_sep P \<in> set filePath
           then matchFilesWithContext_loop P root recursive flt acc rest
         else if fst (RegExp_test flt (''./'' @ backslash_to_slash filePath))
           then matchFilesWithContext_loop P root recursive
                  (snd (RegExp_test flt (''./'' @ backslash_to_slash filePath))) (acc @ [file]) rest
         else matchFilesWithContext_loop P root recursive
                  (snd (RegExp_test flt (''./'' @ backslash_to_slash filePath))) acc rest)"

definition matchFilesWithContext ::
  "path_api \<Rightarrow> heap \<Rightarrow> HasteFS \<Rightarrow> string \<Rightarrow> bool \<Rightarrow> RegExp \<Rightarrow> string list \<times> RegExp" where
  "matchFilesWithContext P h fs root recursive flt =
     matchFilesWithContext_loop P root recursive flt [] (getAbsoluteFileIterator P h fs)"

definition getRealPath :: "heap \<Rightarrow> HasteFS \<Rightarrow> string \<Rightarrow> (js_error + string) \<times> heap" where
  "getRealPath h fs filePath = (Inl (Error ''HasteFS.getRealPath() is not implemented.''), h)"


section \<open>Invariants, reference behaviour and sample states\<close>

text \<open>
  A canonical key is a relative path that \<^verbatim>\<open>path.normalize\<close> leaves as it is. The
  data model asks every key of the file map to be canonical.
\<close>

definition canonical :: "path_api \<Rightarrow> string \<Rightarrow> bool" where
  "canonical P k = (\<not> path_isAbsolute P k \<and> path_normalize P k = k)"

definition canonical_keys :: "path_api \<Rightarrow> heap \<Rightarrow> HasteFS \<Rightarrow> bool" where
  "canonical_keys P h fs = list_all (canonical P) (getFileIterator h fs)"

text \<open>The single lookup at the normalized key that the two-tier lookup is compared with.\<close>

definition lookup_normalized :: "path_api \<Rightarrow> heap \<Rightarrow> HasteFS \<Rightarrow> string \<Rightarrow> addr option" where
  "lookup_normalized P h fs p = Map_get (maps h (files fs)) (priv_normalizePath P fs p)"

text \<open>
  A well-formed index: its \<^verbatim>\<open>Map\<close> and the tuples in it are allocated, and the keys
  of the \<^verbatim>\<open>Map\<close> are distinct.
\<close>

definition wf_index :: "heap \<Rightarrow> HasteFS \<Rightarrow> bool" where
  "wf_index h fs =
     (files fs < next_free h \<and> list_all (\<lambda>a. a < next_free h) (map snd (maps h (files fs)))
      \<and> distinct (getFileIterator h fs))"

text \<open>What a \<^verbatim>\<open>Map\<close> holds: its keys, each with the elements of its tuple.\<close>

definition Map_view :: "heap \<Rightarrow> addr \<Rightarrow> (string \<times> jsval list) list" where
  "Map_view h m = map (\<lambda>(k, a). (k, arrays h a)) (maps h m)"

text \<open>
  The result of the context query in the words of its description: the paths whose
  relative form does not start with the parent-directory marker, has no separator when
  the search is not recursive, and whose subject (\<^verbatim>\<open>./\<close> and the relative path with
  its separators as forward slashes) satisfies the filter, that is, holds a match of
  its pattern.
\<close>

definition matchFilesWithContext_described ::
  "path_api \<Rightarrow> heap \<Rightarrow> HasteFS \<Rightarrow> string \<Rightarrow> bool \<Rightarrow> RegExp \<Rightarrow> string list" where
  "matchFilesWithContext_described P h fs root recursive flt =
     filter (\<lambda>file.
        let rel = fastPath_relative P root file
        in \<not> prefix ''..'' rel \<and> (recursive \<or> path_sep P \<notin> set rel)
           \<and> re_exec flt (''./'' @ map (\<lambda>c. if c = path_sep P then CHR ''/'' else c) rel) 0
               \<noteq> None)
       (getAbsoluteFileIterator P h fs)"

text \<open>
  Sample states, all for an index rooted at \<^verbatim>\<open>/proj\<close> whose \<^verbatim>\<open>Map\<close> is at
  address 10. \<open>sample_heap\<close> holds three files under canonical keys. \<open>blank_heap\<close>
  holds an empty index and two tuples; \<open>stray_heap\<close> and \<open>twin_heap\<close> are what
  \<^verbatim>\<open>addOrModify('/proj/a/../b.js', ...)\<close> and then \<^verbatim>\<open>addOrModify('b.js', ...)\<close>
  make of it. \<open>shadow_heap\<close> holds a file under its relative key and another tuple
  under the absolute path of that file. \<open>back_heap\<close> holds one file whose name has a
  backslash in it.
\<close>

definition sample_fs :: HasteFS where
  "sample_fs = constructor ''/proj'' 10"

definition sample_heap :: heap where
  "sample_heap = \<lparr>
     arrays = (\<lambda>_. [])
       (11 := [JStr ''A'', JNum 1000, JNum 42, JNum 0,
               JStr (''b.js'' @ [CHR 0x00] @ ''c.js''), JStr ''da39'', JNum 0],
        12 := [JUndefined, JNum 2000, JNum 7, JNum 0, JStr [], JNull, JNum 1],
        13 := [JStr ''C'', JUndefined, JNum 9, JNum 0, JStr ''x.js'', JStr ''ffee'', JStr ''a.js''],
        14 := [JStr ''D'', JNum 4000, JNum 1, JNum 0, JStr [], JStr ''0a0b'', JNum 0]),
     maps = (\<lambda>_. [])
       (10 := [(''src/a.js'', 11), (''src/sub/b.js'', 12), (''c.js'', 13)]),
     next_free = 15\<rparr>"

definition blank_heap :: heap where
  "blank_heap = \<lparr>
     arrays = (\<lambda>_. [])
       (11 := [JStr ''A'', JNum 1000, JNum 42, JNum 0, JStr [], JNull, JNum 0],
        12 := [JStr ''B'', JNum 2000, JNum 7, JNum 0, JStr [], JNull, JNum 0]),
     maps = (\<lambda>_. []),
     next_free = 13\<rparr>"

definition stray_heap :: heap where
  "stray_heap = addOrModify (posix ''/home'') blank_heap sample_fs ''/proj/a/../b.js'' 11"

definition twin_heap :: heap where
  "twin_heap = addOrModify (posix ''/home'') stray_heap sample_fs ''b.js'' 12"

definition shadow_heap :: heap where
  "shadow_heap = blank_heap\<lparr>maps := (\<lambda>_. [])
     (10 := [(''src/a.js'', 11), (''/proj/src/a.js'', 12)])\<rparr>"

definition back_heap :: heap where
  "back_heap = blank_heap\<lparr>maps := (\<lambda>_. [])
     (10 := [(''a'' @ [CHR 0x5C] @ ''b.js'', 11)])\<rparr>"

text \<open>
  The regular expressions \<^verbatim>\<open>/^\.\/$/\<close>, \<^verbatim>\<open>/^\.\/[^\/]*\.js$/\<close>,
  \<^verbatim>\<open>/^\.\/a\/b\.js$/\<close>, \<^verbatim>\<open>/\.js$/\<close> and \<^verbatim>\<open>/\.js$/g\<close>, newly created. A pattern
  that begins with \<^verbatim>\<open>^\<close> matches only in a search from index 0; \<^verbatim>\<open>/\.js$/\<close> finds
  its match, the last three characters, in a search from any index up to where they
  begin.
\<close>

definition filter_dot_slash :: RegExp where
  "filter_dot_slash = \<lparr>re_exec = (\<lambda>s i. if i = 0 \<and> s = ''./'' then Some (length s) else None),
     re_global = False, re_sticky = False, lastIndex = 0\<rparr>"

definition filter_js_child :: RegExp where
  "filter_js_child = \<lparr>re_exec = (\<lambda>s i.
       if i = 0 \<and> prefix ''./'' s \<and> suffix ''.js'' s \<and> CHR ''/'' \<notin> set (drop 2 s)
       then Some (length s) else None),
     re_global = False, re_sticky = False, lastIndex = 0\<rparr>"

definition filter_a_b :: RegExp where
  "filter_a_b = \<lparr>re_exec = (\<lambda>s i. if i = 0 \<and> s = ''./a/b.js'' then Some (length s) else None),
     re_global = False, re_sticky = False, lastIndex = 0\<rparr>"

definition filter_js :: RegExp where
  "filter_js = \<lparr>re_exec = (\<lambda>s i.
       if suffix ''.js'' s \<and> i + 3 \<le> length s then Some (length s) else None),
     re_global = False, re_sticky = False, lastIndex = 0\<rparr>"

definition filter_js_g :: RegExp where
  "filter_js_g = filter_js\<lparr>re_global := True\<rparr>"

section \<open>Lookup and update of the file map\<close>

lemma Map_get_set: "Map_get (Map_set es k v) k' = (if k' = k then Some v else Map_get es k')"
  by (induction es) (auto simp: Map_get_def)

lemma Map_get_delete: "Map_get (Map_delete es k) k' = (if k' = k then None else Map_get es k')"
  by (induction es) (auto simp: Map_get_def)

lemma Map_get_key: "Map_get es k = Some v \<Longrightarrow> k \<in> set (map fst es)"
  unfolding Map_get_def by (metis map_of_SomeD set_zip_leftD zip_map_fst_snd)

lemma Map_set_fresh: "k \<notin> set (map fst es) \<Longrightarrow> Map_set es k v = es @ [(k, v)]"
  by (induction es) auto

lemma files_set_simps:
  "maps (files_set h fs k v) (files fs) = Map_set (maps h (files fs)) k v"
  "arrays (files_set h fs k v) = arrays h"
  "next_free (files_set h fs k v) = next_free h"
  "a \<noteq> files fs \<Longrightarrow> maps (files_set h fs k v) a = maps h a"
  by (simp_all add: files_set_def)

lemma files_delete_simps:
  "maps (files_delete h fs k) (files fs) = Map_delete (maps h (files fs)) k"
  "arrays (files_delete h fs k) = arrays h"
  "next_free (files_delete h fs k) = next_free h"
  "a \<noteq> files fs \<Longrightarrow> maps (files_delete h fs k) a = maps h a"
  by (simp_all add: files_delete_def)

text \<open>A canonical key is a fixed point of the normalization, and is not absolute.\<close>

lemma canonical_key_fixed:
  assumes "canonical_keys P h fs" and "Map_get (maps h (files fs)) k = Some m"
  shows "priv_normalizePath P fs k = k"
proof -
  from assms(2) have "k \<in> set (getFileIterator h fs)"
    unfolding getFileIterator_def by (rule Map_get_key)
  with assms(1) have "canonical P k"
    unfolding canonical_keys_def list_all_iff by blast
  then show ?thesis
    by (simp add: canonical_def priv_normalizePath_def)
qed

lemma absolute_not_key:
  assumes "canonical_keys P h fs" and "path_isAbsolute P k"
  shows "Map_get (maps h (files fs)) k = None"
proof (cases "Map_get (maps h (files fs)) k")
  case None
  then show ?thesis .
next
  case (Some m)
  then have "k \<in> set (getFileIterator h fs)"
    unfolding getFileIterator_def by (rule Map_get_key)
  with assms(1) have "canonical P k"
    unfolding canonical_keys_def list_all_iff by blast
  with assms(2) show ?thesis by (simp add: canonical_def)
qed

lemma two_tier_eq:
  assumes "canonical_keys P h fs"
  shows "priv_getFileData P h fs p = lookup_normalized P h fs p"
proof (cases "Map_get (maps h (files fs)) p")
  case None
  then show ?thesis by (simp add: priv_getFileData_def lookup_normalized_def)
next
  case (Some m)
  with assms have "priv_normalizePath P fs p = p" by (rule canonical_key_fixed)
  with Some show ?thesis by (simp add: priv_getFileData_def lookup_normalized_def)
qed

lemma getFileData_None_lookup:
  "priv_getFileData P h fs p = None \<Longrightarrow> lookup_normalized P h fs p = None"
  by (auto simp: priv_getFileData_def lookup_normalized_def split: option.splits)

lemma getFileData_after_add:
  assumes "canonical_keys P h fs"
  shows "priv_getFileData P (addOrModify P h fs p r) fs p = Some r"
proof (cases "Map_get (maps h (files fs)) p")
  case None
  then show ?thesis
    by (simp add: priv_getFileData_def addOrModify_def files_set_simps Map_get_set)
next
  case (Some m)
  with assms have "priv_normalizePath P fs p = p" by (rule canonical_key_fixed)
  then show ?thesis
    by (simp add: priv_getFileData_def addOrModify_def files_set_simps Map_get_set)
qed

lemma remove_eq:
  "remove P h fs p =
     (case lookup_normalized P h fs p of
        None \<Rightarrow> (None, h)
      | Some m \<Rightarrow> (Some m, files_delete h fs (priv_normalizePath P fs p)))"
  by (simp add: remove_def lookup_normalized_def Let_def)

lemma funpow_fixed: "f x = x \<Longrightarrow> (f ^^ n) x = x"
  by (induction n) simp_all

text \<open>The mutators write to the \<^verbatim>\<open>Map\<close> of their own index and to nothing else.\<close>

lemma addOrModify_frame:
  "arrays (addOrModify P h fs p r) = arrays h"
  "a \<noteq> files fs \<Longrightarrow> maps (addOrModify P h fs p r) a = maps h a"
  by (simp_all add: addOrModify_def files_set_simps)

lemma remove_frame:
  "arrays (snd (remove P h fs p)) = arrays h"
  "a \<noteq> files fs \<Longrightarrow> maps (snd (remove P h fs p)) a = maps h a"
  by (simp_all add: remove_eq files_delete_simps split: option.splits)

lemma bulk_fold_frame:
  "arrays (foldl (\<lambda>h' (k, m). files_set h' fs k m) h es) = arrays h
   \<and> (\<forall>a. a \<noteq> files fs \<longrightarrow> maps (foldl (\<lambda>h' (k, m). files_set h' fs k m) h es) a = maps h a)"
  by (induction es arbitrary: h) (auto simp: files_set_simps)

lemma bulkAddOrModify_frame:
  "arrays (bulkAddOrModify h fs c) = arrays h"
  "a \<noteq> files fs \<Longrightarrow> maps (bulkAddOrModify h fs c) a = maps h a"
  using bulk_fold_frame[of fs h "maps h c"] by (simp_all add: bulkAddOrModify_def)

section \<open>Splitting a joined dependency string\<close>

lemma split_from_piece:
  "d \<notin> set x \<Longrightarrow> split_from [d] acc (x @ rest) = split_from [d] (rev x @ acc) rest"
  by (induction x arbitrary: acc) simp_all

lemma split_from_join:
  "\<forall>y \<in> set (x # xs). d \<notin> set y \<Longrightarrow>
     split_from [d] acc (js_join [d] (x # xs)) = (rev acc @ x) # xs"
proof (induction xs arbitrary: x acc)
  case Nil
  then show ?case using split_from_piece[of d x acc "[]"] by simp
next
  case (Cons y ys)
  from Cons.prems have "d \<notin> set x" and rest: "\<forall>z \<in> set (y # ys). d \<notin> set z" by simp_all
  then have "split_from [d] acc (js_join [d] (x # y # ys)) =
      split_from [d] (rev x @ acc) (d # js_join [d] (y # ys))"
    using split_from_piece[of d x acc "d # js_join [d] (y # ys)"] by simp
  also have "\<dots> = (rev acc @ x) # split_from [d] [] (js_join [d] (y # ys))"
    by simp
  also have "\<dots> = (rev acc @ x) # y # ys"
    using Cons.IH[OF rest, of "[]"] by simp
  finally show ?case .
qed

lemma js_split_join:
  assumes "deps \<noteq> []" and "\<forall>x \<in> set deps. d \<notin> set x"
  shows "js_split (js_join [d] deps) [d] = deps"
proof -
  from assms(1) obtain x xs where "deps = x # xs" by (cases deps) auto
  with assms(2) show ?thesis
    using split_from_join[of x xs d "[]"] by (simp add: js_split_def)
qed

lemma js_join_nonempty:
  assumes "deps \<noteq> []" and "deps \<noteq> [[]]"
  shows "js_join [d] deps \<noteq> []"
proof (cases deps)
  case Nil
  with assms show ?thesis by simp
next
  case (Cons x xs)
  with assms show ?thesis by (cases xs) auto
qed

lemma record_dependencies_not_null: "record_dependencies H R \<noteq> Inr None"
  by (simp add: record_dependencies_def Let_def split: jsval.splits)

lemma record_dependencies_join:
  assumes "deps \<noteq> [[]]" and "\<forall>x \<in> set deps. d \<notin> set x" and "DEPENDENCY_DELIM H = [d]"
    and "js_index R (DEPENDENCIES H) = JStr (js_join [d] deps)"
  shows "record_dependencies H R = Inr (Some deps)"
proof (cases "deps = []")
  case True
  with assms(4) show ?thesis by (simp add: record_dependencies_def)
next
  case False
  with assms show ?thesis
    by (simp add: record_dependencies_def js_join_nonempty js_split_join)
qed

section \<open>The loop of the context query\<close>

lemma RegExp_test_plain:
  "\<not> re_global re \<Longrightarrow> \<not> re_sticky re \<Longrightarrow> RegExp_test re s = (re_exec re s 0 \<noteq> None, re)"
  by (simp add: RegExp_test_def split: option.splits)

lemma matchFilesWithContext_loop_filter:
  assumes "\<not> re_global flt" and "\<not> re_sticky flt"
  shows "matchFilesWithContext_loop P root recursive flt acc fls =
     (acc @ filter (\<lambda>file.
        fastPath_relative P root file \<noteq> []
        \<and> \<not> prefix ''..'' (fastPath_relative P root file)
        \<and> (recursive \<or> path_sep P \<notin> set (fastPath_relative P root file))
        \<and> re_exec flt (''./'' @ backslash_to_slash (fastPath_relative P root file)) 0 \<noteq> None) fls,
      flt)"
  by (induction fls arbitrary: acc) (auto simp: Let_def RegExp_test_plain[OF assms])

section \<open>Copying the file map\<close>

text \<open>
  The copies of \<open>copy_entries\<close> take the next free addresses in order, hold the
  elements of the tuples they copy, and leave every allocated object as it was.
\<close>

lemma copy_entries_spec:
  "copy_entries h es = (es', h1) \<Longrightarrow>
     map fst es' = map fst es
   \<and> map snd es' = [next_free h ..< next_free h + length es]
   \<and> next_free h1 = next_free h + length es
   \<and> maps h1 = maps h
   \<and> (\<forall>a < next_free h. arrays h1 a = arrays h a)
   \<and> (list_all (\<lambda>a. a < next_free h) (map snd es) \<longrightarrow>
        map (\<lambda>e. arrays h1 (snd e)) es' = map (\<lambda>e. arrays h (snd e)) es)"
proof (induction es arbitrary: h es' h1)
  case Nil
  then show ?case by simp
next
  case (Cons e es)
  obtain k v where e: "e = (k, v)" by (cases e)
  define ha where "ha = h\<lparr>arrays := (arrays h)(next_free h := arrays h v),
                          next_free := Suc (next_free h)\<rparr>"
  obtain es2 hb where rec: "copy_entries ha es = (es2, hb)" by (cases "copy_entries ha es")
  from Cons.prems have res: "es' = (k, next_free h) # es2" "h1 = hb"
    by (simp_all add: e alloc_array_def ha_def[symmetric] rec)
  note IH = Cons.IH[OF rec]
  have nf: "next_free ha = Suc (next_free h)" and mp: "maps ha = maps h"
    and ar: "\<And>a. a \<noteq> next_free h \<Longrightarrow> arrays ha a = arrays h a"
    and ar0: "arrays ha (next_free h) = arrays h v"
    by (simp_all add: ha_def)
  have 1: "map fst es' = map fst (e # es)"
    using IH by (simp add: res e)
  have 2: "map snd es' = [next_free h ..< next_free h + length (e # es)]"
    using IH by (simp add: res nf upt_conv_Cons del: upt_Suc)
  have 3: "next_free h1 = next_free h + length (e # es)"
    using IH by (simp add: res nf)
  have 4: "maps h1 = maps h"
    using IH by (simp add: res mp)
  have 5: "\<forall>a < next_free h. arrays h1 a = arrays h a"
    using IH by (simp add: res nf ar)
  have 6: "list_all (\<lambda>a. a < next_free h) (map snd (e # es)) \<longrightarrow>
        map (\<lambda>e. arrays h1 (snd e)) es' = map (\<lambda>e. arrays h (snd e)) (e # es)"
  proof
    assume old: "list_all (\<lambda>a. a < next_free h) (map snd (e # es))"
    then have "list_all (\<lambda>a. a < next_free ha) (map snd es)"
      by (auto simp: nf list_all_iff)
    with IH have "map (\<lambda>e. arrays hb (snd e)) es2 = map (\<lambda>e. arrays ha (snd e)) es" by blast
    also have "\<dots> = map (\<lambda>e. arrays h (snd e)) es"
      using old by (auto simp: list_all_iff ar)
    finally have tl: "map (\<lambda>e. arrays hb (snd e)) es2 = map (\<lambda>e. arrays h (snd e)) es" .
    from IH have "arrays hb (next_free h) = arrays ha (next_free h)"
      by (simp add: nf)
    then show "map (\<lambda>e. arrays h1 (snd e)) es' = map (\<lambda>e. arrays h (snd e)) (e # es)"
      by (simp add: res e tl ar0)
  qed
  from 1 2 3 4 5 6 show ?case by blast
qed

lemma foldl_Map_set_distinct:
  "distinct (map fst (acc @ ps)) \<Longrightarrow> foldl (\<lambda>m (k, v). Map_set m k v) acc ps = acc @ ps"
proof (induction ps arbitrary: acc)
  case Nil
  then show ?case by simp
next
  case (Cons e ps)
  obtain k v where e: "e = (k, v)" by (cases e)
  from Cons.prems have "k \<notin> set (map fst acc)" by (auto simp: e)
  then have "Map_set acc k v = acc @ [(k, v)]" by (rule Map_set_fresh)
  moreover from Cons.prems have "distinct (map fst ((acc @ [(k, v)]) @ ps))" by (simp add: e)
  ultimately show ?case using Cons.IH[of "acc @ [(k, v)]"] by (simp add: e)
qed

lemma Map_new_distinct: "distinct (map fst ps) \<Longrightarrow> Map_new ps = ps"
  using foldl_Map_set_distinct[of "[]" ps] by (simp add: Map_new_def)

lemma Map_view_alt: "Map_view h m = zip (map fst (maps h m)) (map (\<lambda>e. arrays h (snd e)) (maps h m))"
  by (simp add: Map_view_def zip_map_map case_prod_beta' zip_same_conv_map)

lemma snapshot_spec:
  assumes wf: "wf_index h fs" and snap: "getSerializableSnapshot h fs = (snap, h')"
  shows "next_free h \<le> snap"
    and "map fst (maps h' snap) = map fst (maps h (files fs))"
    and "map snd (maps h' snap) = [next_free h ..< snap]"
    and "map (\<lambda>e. arrays h' (snd e)) (maps h' snap) = map (\<lambda>e. arrays h (snd e)) (maps h (files fs))"
    and "\<And>a. a < next_free h \<Longrightarrow> arrays h' a = arrays h a"
    and "\<And>a. a \<noteq> snap \<Longrightarrow> maps h' a = maps h a"
proof -
  define es where "es = maps h (files fs)"
  obtain ps h1 where cp: "copy_entries h es = (ps, h1)" by (cases "copy_entries h es")
  note S = copy_entries_spec[OF cp]
  from wf have old: "list_all (\<lambda>a. a < next_free h) (map snd es)" and dist: "distinct (map fst es)"
    by (simp_all add: wf_index_def es_def getFileIterator_def)
  from S dist have new: "Map_new ps = ps" by (simp add: Map_new_distinct)
  from snap[symmetric] have "(snap, h') =
      (next_free h1, h1\<lparr>maps := (maps h1)(next_free h1 := ps), next_free := Suc (next_free h1)\<rparr>)"
    by (simp add: getSerializableSnapshot_def es_def[symmetric] cp alloc_map_def new)
  then have sn: "snap = next_free h1"
    and h': "h' = h1\<lparr>maps := (maps h1)(next_free h1 := ps), next_free := Suc (next_free h1)\<rparr>"
    by fast+
  have mp: "maps h' snap = ps" and ar: "arrays h' = arrays h1"
    by (simp_all add: h' sn)
  show "next_free h \<le> snap" using S by (simp add: sn)
  show "map fst (maps h' snap) = map fst (maps h (files fs))"
    unfolding mp using S by (simp add: es_def)
  show "map snd (maps h' snap) = [next_free h ..< snap]"
    unfolding mp using S by (simp add: sn)
  show "map (\<lambda>e. arrays h' (snd e)) (maps h' snap) = map (\<lambda>e. arrays h (snd e)) (maps h (files fs))"
    unfolding mp ar using S old by (simp add: es_def)
  show "\<And>a. a < next_free h \<Longrightarrow> arrays h' a = arrays h a"
    unfolding ar using S by simp
  show "\<And>a. a \<noteq> snap \<Longrightarrow> maps h' a = maps h a"
    using S by (simp add: h' sn)
qed

lemma Map_view_eqI:
  assumes "maps h1 m1 = maps h2 m2"
    and "\<And>k a. (k, a) \<in> set (maps h2 m2) \<Longrightarrow> arrays h1 a = arrays h2 a"
  shows "Map_view h1 m1 = Map_view h2 m2"
  using assms by (auto simp: Map_view_def)

lemma getFileData_view:
  "map_option (arrays h) (priv_getFileData P h fs p) =
     (case map_of (Map_view h (files fs)) p of
        Some R \<Rightarrow> Some R
      | None \<Rightarrow> map_of (Map_view h (files fs)) (priv_normalizePath P fs p))"
  by (simp add: priv_getFileData_def Map_get_def Map_view_def map_of_map split: option.splits)

lemma getFileData_same_view:
  assumes "Map_view h1 (files fs1) = Map_view h2 (files fs2)" and "rootDir fs1 = rootDir fs2"
  shows "map_option (arrays h1) (priv_getFileData P h1 fs1 p) =
         map_option (arrays h2) (priv_getFileData P h2 fs2 p)"
proof -
  have "priv_normalizePath P fs1 p = priv_normalizePath P fs2 p"
    by (simp add: priv_normalizePath_def assms(2))
  then show ?thesis
    by (simp add: getFileData_view assms(1) split: option.splits)
qed

lemma queries_by_tuple:
  "exists P h fs p = (map_option (arrays h) (priv_getFileData P h fs p) \<noteq> None)"
  "field_or_null h (priv_getFileData P h fs p) i =
     js_nullish (case map_option (arrays h) (priv_getFileData P h fs p) of
                   None \<Rightarrow> JUndefined | Some R \<Rightarrow> js_index R i) JNull"
  "getDependencies P H h fs p =
     (case map_option (arrays h) (priv_getFileData P h fs p) of
        Some R \<Rightarrow> record_dependencies H R | None \<Rightarrow> Inr None)"
  "linkStats P H h fs p =
     (case map_option (arrays h) (priv_getFileData P h fs p) of
        None \<Rightarrow> Inr None | Some R \<Rightarrow> record_linkStats H R)"
  by (simp_all add: exists_def field_or_null_def getDependencies_def linkStats_def
      split: option.splits)

lemma same_view_same_answers:
  assumes "Map_view h1 (files fs1) = Map_view h2 (files fs2)" and "rootDir fs1 = rootDir fs2"
  shows "exists P h1 fs1 p = exists P h2 fs2 p
    \<and> getModuleName P H h1 fs1 p = getModuleName P H h2 fs2 p
    \<and> getSize P H h1 fs1 p = getSize P H h2 fs2 p
    \<and> getSha1 P H h1 fs1 p = getSha1 P H h2 fs2 p
    \<and> getDependencies P H h1 fs1 p = getDependencies P H h2 fs2 p
    \<and> linkStats P H h1 fs1 p = linkStats P H h2 fs2 p"
  using getFileData_same_view[OF assms, of P p]
  by (simp add: queries_by_tuple getModuleName_def getSize_def getSha1_def)

section \<open>Evaluation on the POSIX host and the sample states\<close>

lemmas posix_eval = posix_def posix_isAbsolute_def posix_normalize_def posix_normalizeString_def
  posix_segment_step_def posix_resolve_def posix_relative_def posix_segments_def js_split_def
  fastPath_relative_def fastPath_resolve_def

lemmas layout_eval = H_layout_def js_index_def js_nullish_def record_dependencies_def
  record_linkStats_def field_or_null_def

lemma posix_sep: "path_sep (posix cwd) = CHR ''/''"
  by (simp add: posix_def)

lemma posix_abs_example:
  "path_isAbsolute (posix cwd) ''/proj/src/a.js''"
  "fastPath_relative (posix cwd) ''/proj'' ''/proj/src/a.js'' = ''src/a.js''"
  by (simp_all add: posix_def posix_isAbsolute_def fastPath_relative_def)

lemma sample_index:
  "rootDir sample_fs = ''/proj''"
  "files sample_fs = 10"
  "maps sample_heap 10 = [(''src/a.js'', 11), (''src/sub/b.js'', 12), (''c.js'', 13)]"
  "next_free sample_heap = 15"
  by (simp_all add: sample_fs_def sample_heap_def constructor_def)

lemma sample_tuples:
  "arrays sample_heap 11 = [JStr ''A'', JNum 1000, JNum 42, JNum 0,
     JStr (''b.js'' @ [CHR 0x00] @ ''c.js''), JStr ''da39'', JNum 0]"
  "arrays sample_heap 12 = [JUndefined, JNum 2000, JNum 7, JNum 0, JStr [], JNull, JNum 1]"
  "arrays sample_heap 13 = [JStr ''C'', JUndefined, JNum 9, JNum 0, JStr ''x.js'', JStr ''ffee'', JStr ''a.js'']"
  "arrays sample_heap 14 = [JStr ''D'', JNum 4000, JNum 1, JNum 0, JStr [], JStr ''0a0b'', JNum 0]"
  by (simp_all add: sample_heap_def)

lemma sample_canonical: "canonical_keys (posix cwd) sample_heap sample_fs"
  by (simp add: canonical_keys_def getFileIterator_def sample_index canonical_def posix_eval)

lemma sample_wf: "wf_index sample_heap sample_fs"
  by (simp add: wf_index_def getFileIterator_def sample_index)

lemma sample_found:
  "priv_getFileData (posix cwd) sample_heap sample_fs ''src/a.js'' = Some 11"
  "priv_getFileData (posix cwd) sample_heap sample_fs ''/proj/src/a.js'' = Some 11"
  "priv_getFileData (posix cwd) sample_heap sample_fs ''src/sub/b.js'' = Some 12"
  "priv_getFileData (posix cwd) sample_heap sample_fs ''/proj/src/sub/b.js'' = Some 12"
  "priv_getFileData (posix cwd) sample_heap sample_fs ''c.js'' = Some 13"
  "priv_getFileData (posix cwd) sample_heap sample_fs ''nope.js'' = None"
  by (simp_all add: priv_getFileData_def priv_normalizePath_def Map_get_def sample_index posix_eval)

lemma sample_absolute_files:
  "getAbsoluteFileIterator (posix cwd) sample_heap sample_fs =
     [''/proj/src/a.js'', ''/proj/src/sub/b.js'', ''/proj/c.js'']"
  by (simp add: getAbsoluteFileIterator_def getFileIterator_def sample_index posix_eval)

lemma sample_relative:
  "fastPath_relative (posix cwd) ''/proj/c.js'' ''/proj/src/a.js'' = ''../src/a.js''"
  "fastPath_relative (posix cwd) ''/proj/c.js'' ''/proj/src/sub/b.js'' = ''../src/sub/b.js''"
  "fastPath_relative (posix cwd) ''/proj/c.js'' ''/proj/c.js'' = []"
  "fastPath_relative (posix cwd) ''/proj/src'' ''/proj/src/a.js'' = ''a.js''"
  "fastPath_relative (posix cwd) ''/proj/src'' ''/proj/src/sub/b.js'' = ''sub/b.js''"
  "fastPath_relative (posix cwd) ''/proj/src'' ''/proj/c.js'' = ''../c.js''"
  by (simp_all add: posix_eval)

lemma sample_snapshot_addr: "fst (getSerializableSnapshot sample_heap sample_fs) = 18"
  by (simp add: getSerializableSnapshot_def sample_index alloc_array_def alloc_map_def
      split: prod.splits)

lemma sample_view:
  "Map_view sample_heap (files sample_fs) =
     [(''src/a.js'', [JStr ''A'', JNum 1000, JNum 42, JNum 0,
         JStr (''b.js'' @ [CHR 0x00] @ ''c.js''), JStr ''da39'', JNum 0]),
      (''src/sub/b.js'', [JUndefined, JNum 2000, JNum 7, JNum 0, JStr [], JNull, JNum 1]),
      (''c.js'', [JStr ''C'', JUndefined, JNum 9, JNum 0, JStr ''x.js'', JStr ''ffee'', JStr ''a.js''])]"
  by (simp add: Map_view_def sample_index sample_tuples)

lemma stray_index:
  "maps stray_heap 10 = [(''a/../b.js'', 11)]"
  "maps twin_heap 10 = [(''a/../b.js'', 11), (''b.js'', 12)]"
  "maps shadow_heap 10 = [(''src/a.js'', 11), (''/proj/src/a.js'', 12)]"
  by (simp_all add: stray_heap_def twin_heap_def shadow_heap_def blank_heap_def addOrModify_def
      files_set_def priv_normalizePath_def sample_index posix_eval)

lemma stray_tuples:
  "arrays shadow_heap 11 = [JStr ''A'', JNum 1000, JNum 42, JNum 0, JStr [], JNull, JNum 0]"
  "arrays shadow_heap 12 = [JStr ''B'', JNum 2000, JNum 7, JNum 0, JStr [], JNull, JNum 0]"
  by (simp_all add: shadow_heap_def blank_heap_def)

section \<open>What the queries answer for a tuple\<close>

text \<open>
  The two-tier lookup finds a tuple for a path when the path as given is a key, or else
  when its normalized form is one. The answers of the six queries are then read off
  that tuple; they are the answers for an unknown file when it finds none.
\<close>

lemma two_tier_found:
  "priv_getFileData P h fs p = Some m \<longleftrightarrow>
     Map_get (maps h (files fs)) p = Some m
     \<or> (Map_get (maps h (files fs)) p = None
        \<and> Map_get (maps h (files fs)) (priv_normalizePath P fs p) = Some m)"
  by (auto simp: priv_getFileData_def split: option.splits)

lemma two_tier_missing:
  "priv_getFileData P h fs p = None \<longleftrightarrow>
     Map_get (maps h (files fs)) p = None
     \<and> Map_get (maps h (files fs)) (priv_normalizePath P fs p) = None"
  by (auto simp: priv_getFileData_def split: option.splits)

lemma found_answers:
  assumes "priv_getFileData P h fs p = Some m"
  shows "exists P h fs p
    \<and> getModuleName P H h fs p =
        (if js_index (arrays h m) (ID H) \<in> {JUndefined, JNull} then JNull
         else js_index (arrays h m) (ID H))
    \<and> getSize P H h fs p =
        (if js_index (arrays h m) (SIZE H) \<in> {JUndefined, JNull} then JNull
         else js_index (arrays h m) (SIZE H))
    \<and> getSha1 P H h fs p =
        (if js_index (arrays h m) (SHA1 H) \<in> {JUndefined, JNull} then JNull
         else js_index (arrays h m) (SHA1 H))
    \<and> (js_index (arrays h m) (DEPENDENCIES H) \<in> {JUndefined, JNull, JStr []} \<longrightarrow>
          getDependencies P H h fs p = Inr (Some []))
    \<and> (\<forall>s. js_index (arrays h m) (DEPENDENCIES H) = JStr s \<and> s \<noteq> [] \<longrightarrow>
          getDependencies P H h fs p = Inr (Some (js_split s (DEPENDENCY_DELIM H))))
    \<and> (\<forall>d deps. DEPENDENCY_DELIM H = [d] \<and> deps \<noteq> [[]] \<and> (\<forall>x \<in> set deps. d \<notin> set x)
          \<and> js_index (arrays h m) (DEPENDENCIES H) = JStr (js_join [d] deps) \<longrightarrow>
          getDependencies P H h fs p = Inr (Some deps))
    \<and> (\<forall>t. js_index (arrays h m) (MTIME H) = JNum t \<longrightarrow>
          linkStats P H h fs p =
            Inr (Some \<lparr>fileType = (if js_index (arrays h m) (SYMLINK H) = JNum 0 then ''f'' else ''l''),
                       modifiedTime = t\<rparr>))
    \<and> ((\<forall>t. js_index (arrays h m) (MTIME H) \<noteq> JNum t) \<longrightarrow>
          (\<exists>msg. linkStats P H h fs p = Inl (InvariantViolation msg)))"
proof -
  have 1: "exists P h fs p" by (simp add: exists_def assms)
  have 2: "getModuleName P H h fs p =
        (if js_index (arrays h m) (ID H) \<in> {JUndefined, JNull} then JNull
         else js_index (arrays h m) (ID H))"
    by (simp add: getModuleName_def field_or_null_def js_nullish_def assms)
  have 3: "getSize P H h fs p =
        (if js_index (arrays h m) (SIZE H) \<in> {JUndefined, JNull} then JNull
         else js_index (arrays h m) (SIZE H))"
    by (simp add: getSize_def field_or_null_def js_nullish_def assms)
  have 4: "getSha1 P H h fs p =
        (if js_index (arrays h m) (SHA1 H) \<in> {JUndefined, JNull} then JNull
         else js_index (arrays h m) (SHA1 H))"
    by (simp add: getSha1_def field_or_null_def js_nullish_def assms)
  have 5: "js_index (arrays h m) (DEPENDENCIES H) \<in> {JUndefined, JNull, JStr []} \<longrightarrow>
          getDependencies P H h fs p = Inr (Some [])"
    by (auto simp: getDependencies_def record_dependencies_def assms)
  have 6: "\<forall>s. js_index (arrays h m) (DEPENDENCIES H) = JStr s \<and> s \<noteq> [] \<longrightarrow>
          getDependencies P H h fs p = Inr (Some (js_split s (DEPENDENCY_DELIM H)))"
    by (simp add: getDependencies_def record_dependencies_def assms)
  have 7: "\<forall>d deps. DEPENDENCY_DELIM H = [d] \<and> deps \<noteq> [[]] \<and> (\<forall>x \<in> set deps. d \<notin> set x)
          \<and> js_index (arrays h m) (DEPENDENCIES H) = JStr (js_join [d] deps) \<longrightarrow>
          getDependencies P H h fs p = Inr (Some deps)"
    by (auto simp: getDependencies_def assms intro: record_dependencies_join)
  have 8: "\<forall>t. js_index (arrays h m) (MTIME H) = JNum t \<longrightarrow>
          linkStats P H h fs p =
            Inr (Some \<lparr>fileType = (if js_index (arrays h m) (SYMLINK H) = JNum 0 then ''f'' else ''l''),
                       modifiedTime = t\<rparr>)"
    by (simp add: linkStats_def record_linkStats_def assms)
  have 9: "(\<forall>t. js_index (arrays h m) (MTIME H) \<noteq> JNum t) \<longrightarrow>
          (\<exists>msg. linkStats P H h fs p = Inl (InvariantViolation msg))"
    by (auto simp: linkStats_def record_linkStats_def assms split: jsval.splits)
  from 1 2 3 4 5 6 7 8 9 show ?thesis by blast
qed

lemma missing_answers:
  assumes "priv_getFileData P h fs p = None"
  shows "\<not> exists P h fs p \<and> getModuleName P H h fs p = JNull \<and> getSize P H h fs p = JNull
    \<and> getSha1 P H h fs p = JNull \<and> getDependencies P H h fs p = Inr None
    \<and> linkStats P H h fs p = Inr None"
  by (simp add: exists_def getModuleName_def getSize_def getSha1_def getDependencies_def
      linkStats_def field_or_null_def js_nullish_def assms)

section \<open>More evaluation on the sample states\<close>

lemma sample_fields:
  "js_index (arrays sample_heap 11) (ID H_layout) = JStr ''A''"
  "js_index (arrays sample_heap 11) (SIZE H_layout) = JNum 42"
  "js_index (arrays sample_heap 11) (SHA1 H_layout) = JStr ''da39''"
  "js_index (arrays sample_heap 11) (DEPENDENCIES H_layout) = JStr (js_join [CHR 0x00] [''b.js'', ''c.js''])"
  "js_index (arrays sample_heap 11) (MTIME H_layout) = JNum 1000"
  "js_index (arrays sample_heap 11) (SYMLINK H_layout) = JNum 0"
  "DEPENDENCY_DELIM H_layout = [CHR 0x00]"
  by (simp_all add: sample_tuples H_layout_def js_index_def)

lemma stray_tuple:
  "arrays stray_heap 11 = [JStr ''A'', JNum 1000, JNum 42, JNum 0, JStr [], JNull, JNum 0]"
  by (simp add: stray_heap_def blank_heap_def addOrModify_def files_set_def)

lemma stray_fields:
  "js_index (arrays stray_heap 11) (ID H_layout) = JStr ''A''"
  "js_index (arrays stray_heap 11) (DEPENDENCIES H_layout) = JStr []"
  by (simp_all add: stray_heap_def blank_heap_def addOrModify_def files_set_def H_layout_def
      js_index_def)

lemma stray_normal: "priv_normalizePath (posix cwd) sample_fs ''a/../b.js'' = ''b.js''"
  by (simp add: priv_normalizePath_def posix_eval)

lemma sample_relative_root:
  "fastPath_relative (posix cwd) ''/proj'' ''/proj/src/a.js'' = ''src/a.js''"
  "fastPath_relative (posix cwd) ''/proj'' ''/proj/src/sub/b.js'' = ''src/sub/b.js''"
  "fastPath_relative (posix cwd) ''/proj'' ''/proj/c.js'' = ''c.js''"
  by (simp_all add: posix_eval)

lemma back_files:
  "getAbsoluteFileIterator (posix cwd) back_heap sample_fs = [''/proj/a'' @ [CHR 0x5C] @ ''b.js'']"
  "fastPath_relative (posix cwd) ''/proj'' (''/proj/a'' @ [CHR 0x5C] @ ''b.js'') =
     ''a'' @ [CHR 0x5C] @ ''b.js''"
  by (simp_all add: getAbsoluteFileIterator_def getFileIterator_def back_heap_def blank_heap_def
      sample_index posix_eval)

lemmas filter_eval = filter_dot_slash_def filter_js_child_def filter_a_b_def filter_js_def
  filter_js_g_def RegExp_test_def backslash_to_slash_def suffix_to_prefix posix_sep

section \<open>Adding a file\<close>

text \<open>
  Claim C1. Let every key of the file map be canonical. For every path \<open>p\<close> and every
  metadata tuple \<open>r\<close>, right after \<^verbatim>\<open>addOrModify(p, r)\<close>, whatever else the map
  holds and whether \<open>p\<close> is absolute or relative: \<^verbatim>\<open>exists(p)\<close> is true;
  \<^verbatim>\<open>getModuleName\<close>, \<^verbatim>\<open>getSize\<close> and \<^verbatim>\<open>getSha1\<close> return the id, size and sha1
  field of \<open>r\<close>, or \<^verbatim>\<open>null\<close> where the field is absent; \<^verbatim>\<open>getDependencies\<close>
  returns the empty array when the dependency field of \<open>r\<close> is absent or empty, and
  otherwise that string split at the delimiter, which gives back the specifiers that
  were joined; \<^verbatim>\<open>linkStats\<close> returns the modification time of \<open>r\<close> with
  \<^verbatim>\<open>fileType\<close> \<^verbatim>\<open>'f'\<close> when the symlink field of \<open>r\<close> is \<^verbatim>\<open>0\<close> and \<^verbatim>\<open>'l'\<close>
  otherwise, and throws when \<open>r\<close> has no numeric modification time.
\<close>

theorem addOrModify_then_queries:
  assumes "canonical_keys P h fs"
  shows "exists P (addOrModify P h fs p r) fs p
    \<and> getModuleName P H (addOrModify P h fs p r) fs p =
        (if js_index (arrays h r) (ID H) \<in> {JUndefined, JNull} then JNull
         else js_index (arrays h r) (ID H))
    \<and> getSize P H (addOrModify P h fs p r) fs p =
        (if js_index (arrays h r) (SIZE H) \<in> {JUndefined, JNull} then JNull
         else js_index (arrays h r) (SIZE H))
    \<and> getSha1 P H (addOrModify P h fs p r) fs p =
        (if js_index (arrays h r) (SHA1 H) \<in> {JUndefined, JNull} then JNull
         else js_index (arrays h r) (SHA1 H))
    \<and> (js_index (arrays h r) (DEPENDENCIES H) \<in> {JUndefined, JNull, JStr []} \<longrightarrow>
          getDependencies P H (addOrModify P h fs p r) fs p = Inr (Some []))
    \<and> (\<forall>s. js_index (arrays h r) (DEPENDENCIES H) = JStr s \<and> s \<noteq> [] \<longrightarrow>
          getDependencies P H (addOrModify P h fs p r) fs p =
            Inr (Some (js_split s (DEPENDENCY_DELIM H))))
    \<and> (\<forall>d deps. DEPENDENCY_DELIM H = [d] \<and> deps \<noteq> [[]] \<and> (\<forall>x \<in> set deps. d \<notin> set x)
          \<and> js_index (arrays h r) (DEPENDENCIES H) = JStr (js_join [d] deps) \<longrightarrow>
          getDependencies P H (addOrModify P h fs p r) fs p = Inr (Some deps))
    \<and> (\<forall>t. js_index (arrays h r) (MTIME H) = JNum t \<longrightarrow>
          linkStats P H (addOrModify P h fs p r) fs p =
            Inr (Some \<lparr>fileType = (if js_index (arrays h r) (SYMLINK H) = JNum 0 then ''f'' else ''l''),
                       modifiedTime = t\<rparr>))
    \<and> ((\<forall>t. js_index (arrays h r) (MTIME H) \<noteq> JNum t) \<longrightarrow>
          (\<exists>msg. linkStats P H (addOrModify P h fs p r) fs p = Inl (InvariantViolation msg)))"
proof -
  have found: "priv_getFileData P (addOrModify P h fs p r) fs p = Some r"
    using assms by (rule getFileData_after_add)
  have same: "arrays (addOrModify P h fs p r) = arrays h"
    by (simp add: addOrModify_def files_set_simps)
  from found_answers[OF found, of H] show ?thesis
    unfolding same .
qed

text \<open>
  A run of C1: the tuple at address 11, whose dependency string joins \<^verbatim>\<open>b.js\<close> and
  \<^verbatim>\<open>c.js\<close>, is added under \<^verbatim>\<open>/proj/lib/d.js\<close> to the sample index, and the
  queries for that path return its fields.
\<close>

theorem addOrModify_then_queries_witness:
  "canonical_keys (posix ''/home'') sample_heap sample_fs
   \<and> exists (posix ''/home'')
        (addOrModify (posix ''/home'') sample_heap sample_fs ''/proj/lib/d.js'' 11) sample_fs ''/proj/lib/d.js''
   \<and> getModuleName (posix ''/home'') H_layout
        (addOrModify (posix ''/home'') sample_heap sample_fs ''/proj/lib/d.js'' 11) sample_fs ''/proj/lib/d.js''
       = JStr ''A''
   \<and> getSize (posix ''/home'') H_layout
        (addOrModify (posix ''/home'') sample_heap sample_fs ''/proj/lib/d.js'' 11) sample_fs ''/proj/lib/d.js''
       = JNum 42
   \<and> getSha1 (posix ''/home'') H_layout
        (addOrModify (posix ''/home'') sample_heap sample_fs ''/proj/lib/d.js'' 11) sample_fs ''/proj/lib/d.js''
       = JStr ''da39''
   \<and> getDependencies (posix ''/home'') H_layout
        (addOrModify (posix ''/home'') sample_heap sample_fs ''/proj/lib/d.js'' 11) sample_fs ''/proj/lib/d.js''
       = Inr (Some [''b.js'', ''c.js''])
   \<and> linkStats (posix ''/home'') H_layout
        (addOrModify (posix ''/home'') sample_heap sample_fs ''/proj/lib/d.js'' 11) sample_fs ''/proj/lib/d.js''
       = Inr (Some \<lparr>fileType = ''f'', modifiedTime = 1000\<rparr>)"
proof -
  let ?P = "posix ''/home''"
  let ?h = "addOrModify ?P sample_heap sample_fs ''/proj/lib/d.js'' 11"
  have c: "canonical_keys ?P sample_heap sample_fs" by (rule sample_canonical)
  note T = addOrModify_then_queries[OF c, of "''/proj/lib/d.js''" 11 H_layout]
  have ok: "[''b.js'', ''c.js''] \<noteq> [[]] \<and> (\<forall>x \<in> set [''b.js'', ''c.js'']. CHR 0x00 \<notin> set x)"
    by simp
  from T have 1: "exists ?P ?h sample_fs ''/proj/lib/d.js''" by blast
  from T have 2: "getModuleName ?P H_layout ?h sample_fs ''/proj/lib/d.js'' = JStr ''A''"
    by (simp add: sample_fields)
  from T have 3: "getSize ?P H_layout ?h sample_fs ''/proj/lib/d.js'' = JNum 42"
    by (simp add: sample_fields)
  from T have 4: "getSha1 ?P H_layout ?h sample_fs ''/proj/lib/d.js'' = JStr ''da39''"
    by (simp add: sample_fields)
  from T sample_fields(4,7) ok
  have 5: "getDependencies ?P H_layout ?h sample_fs ''/proj/lib/d.js'' = Inr (Some [''b.js'', ''c.js''])"
    by blast
  from T sample_fields(5,6)
  have 6: "linkStats ?P H_layout ?h sample_fs ''/proj/lib/d.js'' =
      Inr (Some \<lparr>fileType = ''f'', modifiedTime = 1000\<rparr>)"
    by simp
  from c 1 2 3 4 5 6 show ?thesis by blast
qed

section \<open>Removing a file\<close>

text \<open>
  Claim C2, as stated, fails where a key of the map is not canonical. In \<open>twin_heap\<close>
  the path \<^verbatim>\<open>a/../b.js\<close> is a key of the map and \<^verbatim>\<open>exists\<close> finds it, yet
  \<^verbatim>\<open>remove\<close> looks up the normalized \<^verbatim>\<open>b.js\<close> only: it returns and deletes the
  tuple stored there, and \<^verbatim>\<open>exists('a/../b.js')\<close> is still true afterwards.
\<close>

theorem remove_once_counterexample:
  "Map_get (maps twin_heap (files sample_fs)) ''a/../b.js'' = Some 11
   \<and> exists (posix ''/home'') twin_heap sample_fs ''a/../b.js''
   \<and> fst (remove (posix ''/home'') twin_heap sample_fs ''a/../b.js'') = Some 12
   \<and> exists (posix ''/home'')
        (snd (remove (posix ''/home'') twin_heap sample_fs ''a/../b.js''))
        sample_fs ''a/../b.js''"
  by (simp add: exists_def priv_getFileData_def remove_def priv_normalizePath_def
      files_delete_def Map_get_def stray_index sample_index posix_eval)

text \<open>
  Claim C2, amended. Let every key of the file map be canonical. For every path \<open>p\<close>
  that the index finds: the first \<^verbatim>\<open>remove(p)\<close> returns the stored tuple and deletes
  its key, leaving the other keys as they were; \<^verbatim>\<open>exists(p)\<close> is false right after;
  every further \<^verbatim>\<open>remove(p)\<close>, however many, returns \<^verbatim>\<open>null\<close> and changes
  nothing. For a path that the index does not find, \<^verbatim>\<open>remove\<close> returns \<^verbatim>\<open>null\<close> and
  the store, hence the file map, is unchanged.
\<close>

theorem remove_once:
  assumes "canonical_keys P h fs"
  shows "(\<forall>m. priv_getFileData P h fs p = Some m \<longrightarrow>
            fst (remove P h fs p) = Some m
          \<and> \<not> exists P (snd (remove P h fs p)) fs p
          \<and> (\<forall>k. Map_get (maps (snd (remove P h fs p)) (files fs)) k =
                 (if k = priv_normalizePath P fs p then None else Map_get (maps h (files fs)) k))
          \<and> (\<forall>n. remove P
                 (((\<lambda>s. snd (remove P s fs p)) ^^ n) (snd (remove P h fs p))) fs p =
                 (None, snd (remove P h fs p))))
       \<and> (priv_getFileData P h fs p = None \<longrightarrow> remove P h fs p = (None, h))"
proof (intro conjI allI impI)
  assume "priv_getFileData P h fs p = None"
  then show "remove P h fs p = (None, h)"
    by (simp add: remove_eq getFileData_None_lookup)
next
  fix m
  assume found: "priv_getFileData P h fs p = Some m"
  define q where "q = priv_normalizePath P fs p"
  define h1 where "h1 = files_delete h fs q"
  from found assms have look: "lookup_normalized P h fs p = Some m"
    by (simp add: two_tier_eq)
  then have rem: "remove P h fs p = (Some m, h1)"
    by (simp add: remove_eq h1_def q_def)
  have get1: "Map_get (maps h1 (files fs)) k = (if k = q then None else Map_get (maps h (files fs)) k)" for k
    by (simp add: h1_def files_delete_simps Map_get_delete)
  have direct: "Map_get (maps h1 (files fs)) p = None"
  proof (cases "Map_get (maps h (files fs)) p")
    case None
    then show ?thesis by (simp add: get1)
  next
    case (Some x)
    with assms have "priv_normalizePath P fs p = p" by (rule canonical_key_fixed)
    then show ?thesis by (simp add: get1 q_def)
  qed
  have look1: "lookup_normalized P h1 fs p = None"
    by (simp add: lookup_normalized_def get1 q_def)
  have again: "remove P h1 fs p = (None, h1)"
    by (simp add: remove_eq look1)
  show "fst (remove P h fs p) = Some m"
    by (simp add: rem)
  show "\<not> exists P (snd (remove P h fs p)) fs p"
    using direct look1 by (simp add: rem exists_def priv_getFileData_def lookup_normalized_def)
  show "Map_get (maps (snd (remove P h fs p)) (files fs)) k =
          (if k = priv_normalizePath P fs p then None else Map_get (maps h (files fs)) k)" for k
    by (simp add: rem get1 q_def)
  show "remove P (((\<lambda>s. snd (remove P s fs p)) ^^ n) (snd (remove P h fs p))) fs p =
          (None, snd (remove P h fs p))" for n
  proof -
    have "((\<lambda>s. snd (remove P s fs p)) ^^ n) h1 = h1"
      by (rule funpow_fixed) (simp add: again)
    then show ?thesis by (simp add: rem again)
  qed
qed

text \<open>
  A run of C2 on the sample index: \<^verbatim>\<open>/proj/src/a.js\<close> is removed once, and
  \<^verbatim>\<open>nope.js\<close> is not there to remove.
\<close>

theorem remove_once_witness:
  "canonical_keys (posix ''/home'') sample_heap sample_fs
   \<and> priv_getFileData (posix ''/home'') sample_heap sample_fs ''/proj/src/a.js'' = Some 11
   \<and> fst (remove (posix ''/home'') sample_heap sample_fs ''/proj/src/a.js'') = Some 11
   \<and> \<not> exists (posix ''/home'')
          (snd (remove (posix ''/home'') sample_heap sample_fs ''/proj/src/a.js''))
          sample_fs ''/proj/src/a.js''
   \<and> remove (posix ''/home'')
          (snd (remove (posix ''/home'') sample_heap sample_fs ''/proj/src/a.js''))
          sample_fs ''/proj/src/a.js''
       = (None, snd (remove (posix ''/home'') sample_heap sample_fs ''/proj/src/a.js''))
   \<and> priv_getFileData (posix ''/home'') sample_heap sample_fs ''nope.js'' = None
   \<and> remove (posix ''/home'') sample_heap sample_fs ''nope.js'' = (None, sample_heap)"
proof -
  let ?P = "posix ''/home''"
  let ?p = "''/proj/src/a.js''"
  let ?h1 = "snd (remove ?P sample_heap sample_fs ?p)"
  have c: "canonical_keys ?P sample_heap sample_fs" by (rule sample_canonical)
  have f: "priv_getFileData ?P sample_heap sample_fs ?p = Some 11" by (rule sample_found)
  have n: "priv_getFileData ?P sample_heap sample_fs ''nope.js'' = None" by (rule sample_found)
  from remove_once[OF c, of ?p] f
  have a: "fst (remove ?P sample_heap sample_fs ?p) = Some 11"
    and b: "\<not> exists ?P ?h1 sample_fs ?p"
    and d: "\<forall>n. remove ?P (((\<lambda>s. snd (remove ?P s sample_fs ?p)) ^^ n) ?h1) sample_fs ?p
              = (None, ?h1)"
    by simp_all
  from d have "remove ?P (((\<lambda>s. snd (remove ?P s sample_fs ?p)) ^^ 0) ?h1) sample_fs ?p
              = (None, ?h1)" by (rule spec)
  then have e: "remove ?P ?h1 sample_fs ?p = (None, ?h1)" by simp
  from remove_once[OF c, of "''nope.js''"] n
  have g: "remove ?P sample_heap sample_fs ''nope.js'' = (None, sample_heap)" by simp
  from c f a b e n g show ?thesis by simp
qed

section \<open>Absolute and relative paths\<close>

text \<open>
  Claim C3, as stated, fails where the absolute path is itself a key of the map: the
  direct lookup of the two-tier scheme finds that key first. \<open>shadow_heap\<close> holds the
  canonical key \<^verbatim>\<open>src/a.js\<close> and the key \<^verbatim>\<open>/proj/src/a.js\<close>, and the module name
  differs between the two ways of asking.
\<close>

theorem absolute_and_relative_agree_counterexample:
  "rootDir sample_fs = ''/proj''
   \<and> canonical (posix ''/home'') ''src/a.js''
   \<and> Map_get (maps shadow_heap (files sample_fs)) ''src/a.js'' = Some 11
   \<and> getModuleName (posix ''/home'') H_layout shadow_heap sample_fs ''/proj/src/a.js'' = JStr ''B''
   \<and> getModuleName (posix ''/home'') H_layout shadow_heap sample_fs ''src/a.js'' = JStr ''A''"
  by (simp add: getModuleName_def priv_getFileData_def Map_get_def canonical_def stray_index
      stray_tuples sample_index layout_eval posix_eval)

text \<open>
  Claim C3, amended. On a POSIX host, for an index with root directory \<^verbatim>\<open>/proj\<close>
  that does not hold the absolute path \<^verbatim>\<open>/proj/src/a.js\<close> itself as a key, as is the
  case when all its keys are canonical: every point query (\<^verbatim>\<open>exists\<close>,
  \<^verbatim>\<open>getModuleName\<close>, \<^verbatim>\<open>getSize\<close>, \<^verbatim>\<open>getSha1\<close>, \<^verbatim>\<open>getDependencies\<close>,
  \<^verbatim>\<open>linkStats\<close>) gives the same result for \<^verbatim>\<open>/proj/src/a.js\<close> as for
  \<^verbatim>\<open>src/a.js\<close>; and when the index holds the key \<^verbatim>\<open>src/a.js\<close>, both find its tuple.
\<close>

theorem absolute_and_relative_agree:
  assumes "rootDir fs = ''/proj''"
    and "canonical_keys (posix cwd) h fs \<or> Map_get (maps h (files fs)) ''/proj/src/a.js'' = None"
  shows "priv_getFileData (posix cwd) h fs ''/proj/src/a.js'' =
           priv_getFileData (posix cwd) h fs ''src/a.js''
    \<and> exists (posix cwd) h fs ''/proj/src/a.js'' = exists (posix cwd) h fs ''src/a.js''
    \<and> getModuleName (posix cwd) H h fs ''/proj/src/a.js'' = getModuleName (posix cwd) H h fs ''src/a.js''
    \<and> getSize (posix cwd) H h fs ''/proj/src/a.js'' = getSize (posix cwd) H h fs ''src/a.js''
    \<and> getSha1 (posix cwd) H h fs ''/proj/src/a.js'' = getSha1 (posix cwd) H h fs ''src/a.js''
    \<and> getDependencies (posix cwd) H h fs ''/proj/src/a.js'' =
        getDependencies (posix cwd) H h fs ''src/a.js''
    \<and> linkStats (posix cwd) H h fs ''/proj/src/a.js'' = linkStats (posix cwd) H h fs ''src/a.js''
    \<and> (\<forall>m. Map_get (maps h (files fs)) ''src/a.js'' = Some m \<longrightarrow>
          priv_getFileData (posix cwd) h fs ''/proj/src/a.js'' = Some m
        \<and> exists (posix cwd) h fs ''/proj/src/a.js'')"
proof -
  have "Map_get (maps h (files fs)) ''/proj/src/a.js'' = None"
    using assms(2) absolute_not_key[OF _ posix_abs_example(1)] by blast
  moreover have "priv_normalizePath (posix cwd) fs ''/proj/src/a.js'' = ''src/a.js''"
    by (simp add: priv_normalizePath_def posix_abs_example assms(1))
  ultimately have abs: "priv_getFileData (posix cwd) h fs ''/proj/src/a.js'' =
      Map_get (maps h (files fs)) ''src/a.js''"
    by (simp add: priv_getFileData_def)
  have "priv_normalizePath (posix cwd) fs ''src/a.js'' = ''src/a.js''"
    by (simp add: priv_normalizePath_def posix_eval)
  then have rel: "priv_getFileData (posix cwd) h fs ''src/a.js'' =
      Map_get (maps h (files fs)) ''src/a.js''"
    by (simp add: priv_getFileData_def split: option.splits)
  show ?thesis
    by (simp add: abs rel exists_def getModuleName_def getSize_def getSha1_def
        getDependencies_def linkStats_def)
qed

text \<open>A run of C3 on the sample index, which holds \<^verbatim>\<open>src/a.js\<close>.\<close>

theorem absolute_and_relative_agree_witness:
  "rootDir sample_fs = ''/proj''
   \<and> canonical_keys (posix ''/home'') sample_heap sample_fs
   \<and> Map_get (maps sample_heap (files sample_fs)) ''src/a.js'' = Some 11
   \<and> priv_getFileData (posix ''/home'') sample_heap sample_fs ''/proj/src/a.js'' = Some 11
   \<and> exists (posix ''/home'') sample_heap sample_fs ''/proj/src/a.js''
   \<and> exists (posix ''/home'') sample_heap sample_fs ''src/a.js''
   \<and> getModuleName (posix ''/home'') H_layout sample_heap sample_fs ''/proj/src/a.js'' = JStr ''A''
   \<and> getModuleName (posix ''/home'') H_layout sample_heap sample_fs ''src/a.js'' = JStr ''A''
   \<and> getSize (posix ''/home'') H_layout sample_heap sample_fs ''/proj/src/a.js'' =
       getSize (posix ''/home'') H_layout sample_heap sample_fs ''src/a.js''
   \<and> getSha1 (posix ''/home'') H_layout sample_heap sample_fs ''/proj/src/a.js'' =
       getSha1 (posix ''/home'') H_layout sample_heap sample_fs ''src/a.js''
   \<and> getDependencies (posix ''/home'') H_layout sample_heap sample_fs ''/proj/src/a.js'' =
       getDependencies (posix ''/home'') H_layout sample_heap sample_fs ''src/a.js''
   \<and> linkStats (posix ''/home'') H_layout sample_heap sample_fs ''/proj/src/a.js'' =
       linkStats (posix ''/home'') H_layout sample_heap sample_fs ''src/a.js''"
proof -
  have r: "rootDir sample_fs = ''/proj''" by (rule sample_index)
  have c: "canonical_keys (posix ''/home'') sample_heap sample_fs" by (rule sample_canonical)
  have k: "Map_get (maps sample_heap (files sample_fs)) ''src/a.js'' = Some 11"
    by (simp add: Map_get_def sample_index)
  have m: "getModuleName (posix ''/home'') H_layout sample_heap sample_fs ''src/a.js'' = JStr ''A''"
    by (simp add: getModuleName_def sample_found sample_tuples layout_eval)
  have e: "exists (posix ''/home'') sample_heap sample_fs ''src/a.js''"
    by (simp add: exists_def sample_found)
  from c have d: "canonical_keys (posix ''/home'') sample_heap sample_fs
      \<or> Map_get (maps sample_heap (files sample_fs)) ''/proj/src/a.js'' = None" by blast
  from absolute_and_relative_agree[OF r d, of H_layout] k m e r c show ?thesis
    by auto
qed

section \<open>Dependencies\<close>

text \<open>
  Claim C4, as stated, fails where a key of the map is not canonical. In \<open>stray_heap\<close>
  the normalized form \<^verbatim>\<open>b.js\<close> of the path \<^verbatim>\<open>a/../b.js\<close> is not in the map, yet
  \<^verbatim>\<open>getDependencies('a/../b.js')\<close> is the empty array and not \<^verbatim>\<open>null\<close>: the direct
  lookup finds the path as given.
\<close>

theorem getDependencies_cases_counterexample:
  "priv_normalizePath (posix ''/home'') sample_fs ''a/../b.js'' = ''b.js''
   \<and> Map_get (maps stray_heap (files sample_fs)) ''b.js'' = None
   \<and> getDependencies (posix ''/home'') H_layout stray_heap sample_fs ''a/../b.js'' = Inr (Some [])"
  by (simp add: getDependencies_def priv_getFileData_def Map_get_def
      stray_normal stray_index stray_tuple sample_index layout_eval)

text \<open>
  Claim C4, amended. Let every key of the file map be canonical. For every path \<open>p\<close>:
  \<^verbatim>\<open>getDependencies(p)\<close> returns \<^verbatim>\<open>null\<close> if and only if the normalized \<open>p\<close> is
  not in the map. When it is in the map and the dependency field of its tuple is not
  set (absent, or the empty string, which is the join of no dependency at all) the
  result is the empty array. Otherwise the result is the stored string split at the
  delimiter. So where the stored string is the join of the specifiers \<open>deps\<close> with a
  delimiter character that occurs in none of them, the result is \<open>deps\<close>, in that order
  (a lone empty specifier, which is stored as the empty string, is left out here).
\<close>

theorem getDependencies_cases:
  assumes "canonical_keys P h fs"
  shows "(getDependencies P H h fs p = Inr None \<longleftrightarrow>
            Map_get (maps h (files fs)) (priv_normalizePath P fs p) = None)
   \<and> (\<forall>m. Map_get (maps h (files fs)) (priv_normalizePath P fs p) = Some m
          \<and> js_index (arrays h m) (DEPENDENCIES H) \<in> {JUndefined, JNull, JStr []}
        \<longrightarrow> getDependencies P H h fs p = Inr (Some []))
   \<and> (\<forall>m s. Map_get (maps h (files fs)) (priv_normalizePath P fs p) = Some m
          \<and> js_index (arrays h m) (DEPENDENCIES H) = JStr s \<and> s \<noteq> []
        \<longrightarrow> getDependencies P H h fs p = Inr (Some (js_split s (DEPENDENCY_DELIM H))))
   \<and> (\<forall>m d deps. Map_get (maps h (files fs)) (priv_normalizePath P fs p) = Some m
          \<and> DEPENDENCY_DELIM H = [d]
          \<and> deps \<noteq> [[]] \<and> (\<forall>x \<in> set deps. d \<notin> set x)
          \<and> js_index (arrays h m) (DEPENDENCIES H) = JStr (js_join [d] deps)
        \<longrightarrow> getDependencies P H h fs p = Inr (Some deps))"
proof -
  have look: "priv_getFileData P h fs p = Map_get (maps h (files fs)) (priv_normalizePath P fs p)"
    using two_tier_eq[OF assms, of p] by (simp add: lookup_normalized_def)
  have a: "getDependencies P H h fs p = Inr None \<longleftrightarrow>
            Map_get (maps h (files fs)) (priv_normalizePath P fs p) = None"
    unfolding look[symmetric]
    by (simp add: getDependencies_def record_dependencies_not_null split: option.splits)
  have b: "Map_get (maps h (files fs)) (priv_normalizePath P fs p) = Some m \<Longrightarrow>
      (js_index (arrays h m) (DEPENDENCIES H) \<in> {JUndefined, JNull, JStr []} \<longrightarrow>
          getDependencies P H h fs p = Inr (Some []))
    \<and> (\<forall>s. js_index (arrays h m) (DEPENDENCIES H) = JStr s \<and> s \<noteq> [] \<longrightarrow>
          getDependencies P H h fs p = Inr (Some (js_split s (DEPENDENCY_DELIM H))))
    \<and> (\<forall>d deps. DEPENDENCY_DELIM H = [d] \<and> deps \<noteq> [[]] \<and> (\<forall>x \<in> set deps. d \<notin> set x)
          \<and> js_index (arrays h m) (DEPENDENCIES H) = JStr (js_join [d] deps) \<longrightarrow>
          getDependencies P H h fs p = Inr (Some deps))" for m
  proof -
    assume "Map_get (maps h (files fs)) (priv_normalizePath P fs p) = Some m"
    then have "priv_getFileData P h fs p = Some m" by (simp add: look)
    from found_answers[OF this, of H] show ?thesis by blast
  qed
  from a b show ?thesis by blast
qed

text \<open>
  A run of C4 on the sample index: an unknown path, a file with no dependencies, and a
  file whose stored string joins \<^verbatim>\<open>b.js\<close> and \<^verbatim>\<open>c.js\<close>.
\<close>

theorem getDependencies_cases_witness:
  "canonical_keys (posix ''/home'') sample_heap sample_fs
   \<and> Map_get (maps sample_heap (files sample_fs))
        (priv_normalizePath (posix ''/home'') sample_fs ''nope.js'') = None
   \<and> getDependencies (posix ''/home'') H_layout sample_heap sample_fs ''nope.js'' = Inr None
   \<and> Map_get (maps sample_heap (files sample_fs))
        (priv_normalizePath (posix ''/home'') sample_fs ''/proj/src/sub/b.js'') = Some 12
   \<and> js_index (arrays sample_heap 12) (DEPENDENCIES H_layout) = JStr []
   \<and> getDependencies (posix ''/home'') H_layout sample_heap sample_fs ''/proj/src/sub/b.js'' =
        Inr (Some [])
   \<and> Map_get (maps sample_heap (files sample_fs))
        (priv_normalizePath (posix ''/home'') sample_fs ''src/a.js'') = Some 11
   \<and> DEPENDENCY_DELIM H_layout = [CHR 0x00]
   \<and> js_index (arrays sample_heap 11) (DEPENDENCIES H_layout) =
        JStr (js_join [CHR 0x00] [''b.js'', ''c.js''])
   \<and> getDependencies (posix ''/home'') H_layout sample_heap sample_fs ''src/a.js'' =
        Inr (Some [''b.js'', ''c.js''])"
proof -
  let ?P = "posix ''/home''"
  have c: "canonical_keys ?P sample_heap sample_fs" by (rule sample_canonical)
  note T = getDependencies_cases[OF c, of H_layout]
  have n: "Map_get (maps sample_heap (files sample_fs)) (priv_normalizePath ?P sample_fs ''nope.js'') = None"
    by (simp add: priv_normalizePath_def Map_get_def sample_index posix_eval)
  have b: "Map_get (maps sample_heap (files sample_fs))
        (priv_normalizePath ?P sample_fs ''/proj/src/sub/b.js'') = Some 12"
    by (simp add: priv_normalizePath_def Map_get_def sample_index posix_eval)
  have a: "Map_get (maps sample_heap (files sample_fs)) (priv_normalizePath ?P sample_fs ''src/a.js'') = Some 11"
    by (simp add: priv_normalizePath_def Map_get_def sample_index posix_eval)
  have db: "js_index (arrays sample_heap 12) (DEPENDENCIES H_layout) = JStr []"
    by (simp add: sample_tuples layout_eval)
  have ok: "[''b.js'', ''c.js''] \<noteq> [[]]
      \<and> (\<forall>x \<in> set [''b.js'', ''c.js'']. CHR 0x00 \<notin> set x)" by simp
  from T[of "''nope.js''"] n
  have 1: "getDependencies ?P H_layout sample_heap sample_fs ''nope.js'' = Inr None" by blast
  from T[of "''/proj/src/sub/b.js''"] b db
  have 2: "getDependencies ?P H_layout sample_heap sample_fs ''/proj/src/sub/b.js'' = Inr (Some [])"
    by blast
  from T[of "''src/a.js''"] a sample_fields(4,7) ok
  have 3: "getDependencies ?P H_layout sample_heap sample_fs ''src/a.js'' =
        Inr (Some [''b.js'', ''c.js''])" by blast
  from c n 1 b db 2 a sample_fields(4,7) 3 show ?thesis by blast
qed

section \<open>Link statistics\<close>

text \<open>
  Claim C5. For every path \<open>p\<close>: \<^verbatim>\<open>linkStats(p)\<close> returns \<^verbatim>\<open>null\<close> when the
  index finds no tuple for \<open>p\<close>. When the tuple is found and its modification time is
  a number, the result carries that time as \<^verbatim>\<open>modifiedTime\<close>, with \<^verbatim>\<open>fileType\<close>
  \<^verbatim>\<open>'f'\<close> when the symlink field is \<^verbatim>\<open>0\<close> and \<^verbatim>\<open>'l'\<close> in every other case. When
  the tuple is found and its modification time is not a number, \<^verbatim>\<open>linkStats\<close>
  throws the invariant violation and returns nothing.
\<close>

theorem linkStats_cases:
  "(priv_getFileData P h fs p = None \<longrightarrow> linkStats P H h fs p = Inr None)
   \<and> (\<forall>m t. priv_getFileData P h fs p = Some m \<and> js_index (arrays h m) (MTIME H) = JNum t \<longrightarrow>
         linkStats P H h fs p =
           Inr (Some \<lparr>fileType = (if js_index (arrays h m) (SYMLINK H) = JNum 0 then ''f'' else ''l''),
                      modifiedTime = t\<rparr>))
   \<and> (\<forall>m. priv_getFileData P h fs p = Some m \<and> (\<forall>t. js_index (arrays h m) (MTIME H) \<noteq> JNum t) \<longrightarrow>
         (\<exists>msg. linkStats P H h fs p = Inl (InvariantViolation msg)))"
  by (auto simp: linkStats_def record_linkStats_def Let_def split: jsval.splits)

text \<open>
  A run of C5 on the sample index: an unknown path, a regular file, a symbolic link and
  a tuple without modification time.
\<close>

theorem linkStats_cases_witness:
  "priv_getFileData (posix ''/home'') sample_heap sample_fs ''nope.js'' = None
   \<and> linkStats (posix ''/home'') H_layout sample_heap sample_fs ''nope.js'' = Inr None
   \<and> priv_getFileData (posix ''/home'') sample_heap sample_fs ''src/a.js'' = Some 11
   \<and> linkStats (posix ''/home'') H_layout sample_heap sample_fs ''src/a.js'' =
        Inr (Some \<lparr>fileType = ''f'', modifiedTime = 1000\<rparr>)
   \<and> priv_getFileData (posix ''/home'') sample_heap sample_fs ''/proj/src/sub/b.js'' = Some 12
   \<and> linkStats (posix ''/home'') H_layout sample_heap sample_fs ''/proj/src/sub/b.js'' =
        Inr (Some \<lparr>fileType = ''l'', modifiedTime = 2000\<rparr>)
   \<and> priv_getFileData (posix ''/home'') sample_heap sample_fs ''c.js'' = Some 13
   \<and> js_index (arrays sample_heap 13) (MTIME H_layout) = JUndefined
   \<and> (\<exists>msg. linkStats (posix ''/home'') H_layout sample_heap sample_fs ''c.js'' =
         Inl (InvariantViolation msg))"
proof -
  let ?P = "posix ''/home''"
  note T = linkStats_cases[of ?P sample_heap sample_fs _ H_layout]
  have n: "priv_getFileData ?P sample_heap sample_fs ''nope.js'' = None" by (rule sample_found)
  have a: "priv_getFileData ?P sample_heap sample_fs ''src/a.js'' = Some 11" by (rule sample_found)
  have b: "priv_getFileData ?P sample_heap sample_fs ''/proj/src/sub/b.js'' = Some 12"
    by (rule sample_found)
  have c: "priv_getFileData ?P sample_heap sample_fs ''c.js'' = Some 13" by (rule sample_found)
  have ta: "js_index (arrays sample_heap 11) (MTIME H_layout) = JNum 1000"
    "js_index (arrays sample_heap 11) (SYMLINK H_layout) = JNum 0"
    by (simp_all add: sample_tuples layout_eval)
  have tb: "js_index (arrays sample_heap 12) (MTIME H_layout) = JNum 2000"
    "js_index (arrays sample_heap 12) (SYMLINK H_layout) = JNum 1"
    by (simp_all add: sample_tuples layout_eval)
  have tc: "js_index (arrays sample_heap 13) (MTIME H_layout) = JUndefined"
    by (simp add: sample_tuples layout_eval)
  from T[of "''nope.js''"] n
  have 1: "linkStats ?P H_layout sample_heap sample_fs ''nope.js'' = Inr None" by blast
  from T[of "''src/a.js''"] a ta
  have 2: "linkStats ?P H_layout sample_heap sample_fs ''src/a.js'' =
        Inr (Some \<lparr>fileType = ''f'', modifiedTime = 1000\<rparr>)" by simp
  from T[of "''/proj/src/sub/b.js''"] b tb
  have 3: "linkStats ?P H_layout sample_heap sample_fs ''/proj/src/sub/b.js'' =
        Inr (Some \<lparr>fileType = ''l'', modifiedTime = 2000\<rparr>)" by simp
  from T[of "''c.js''"] c tc
  have 4: "\<exists>msg. linkStats ?P H_layout sample_heap sample_fs ''c.js'' =
         Inl (InvariantViolation msg)" by simp
  from n 1 a 2 b 3 c tc 4 show ?thesis by blast
qed

section \<open>The context query\<close>

text \<open>
  Claim C6, as stated, fails in three ways. A file that is the query root itself has an
  empty relative path, which does not start with the parent-directory marker and whose
  subject \<^verbatim>\<open>./\<close> may satisfy the filter, but the loop skips it: with root
  \<^verbatim>\<open>/proj/c.js\<close> and \<^verbatim>\<open>/^\.\/$/\<close> the code returns nothing. The subject has its
  backslashes rewritten, whatever the separator of the host: on POSIX the file named
  \<^verbatim>\<open>a\b.js\<close> is returned for \<^verbatim>\<open>/^\.\/a\/b\.js$/\<close>, though no separator was there
  to rewrite. And a filter with the \<^verbatim>\<open>g\<close> flag keeps its \<^verbatim>\<open>lastIndex\<close> from one
  file to the next: for \<^verbatim>\<open>/\.js$/g\<close> the code leaves out \<^verbatim>\<open>/proj/c.js\<close>, whose
  subject is shorter than where the match in the subject before it ended.
\<close>

theorem matchFilesWithContext_counterexample:
  "fst (matchFilesWithContext (posix ''/home'') sample_heap sample_fs ''/proj/c.js'' True
          filter_dot_slash) = []
   \<and> matchFilesWithContext_described (posix ''/home'') sample_heap sample_fs ''/proj/c.js'' True
        filter_dot_slash = [''/proj/c.js'']
   \<and> fst (matchFilesWithContext (posix ''/home'') back_heap sample_fs ''/proj'' False filter_a_b) =
        [''/proj/a'' @ [CHR 0x5C] @ ''b.js'']
   \<and> matchFilesWithContext_described (posix ''/home'') back_heap sample_fs ''/proj'' False
        filter_a_b = []
   \<and> fst (matchFilesWithContext (posix ''/home'') sample_heap sample_fs ''/proj'' True filter_js_g) =
        [''/proj/src/a.js'', ''/proj/src/sub/b.js'']
   \<and> matchFilesWithContext_described (posix ''/home'') sample_heap sample_fs ''/proj'' True
        filter_js_g = [''/proj/src/a.js'', ''/proj/src/sub/b.js'', ''/proj/c.js'']"
proof -
  have a1: "fst (matchFilesWithContext (posix ''/home'') sample_heap sample_fs ''/proj/c.js'' True
          filter_dot_slash) = []"
    by (simp add: matchFilesWithContext_def sample_absolute_files sample_relative filter_eval)
  have a2: "matchFilesWithContext_described (posix ''/home'') sample_heap sample_fs ''/proj/c.js'' True
        filter_dot_slash = [''/proj/c.js'']"
    by (simp add: matchFilesWithContext_described_def sample_absolute_files sample_relative
        filter_eval)
  have b1: "fst (matchFilesWithContext (posix ''/home'') back_heap sample_fs ''/proj'' False filter_a_b) =
        [''/proj/a'' @ [CHR 0x5C] @ ''b.js'']"
    using back_files[of "''/home''"] by (simp add: matchFilesWithContext_def filter_eval)
  have b2: "matchFilesWithContext_described (posix ''/home'') back_heap sample_fs ''/proj'' False
        filter_a_b = []"
    using back_files[of "''/home''"] by (simp add: matchFilesWithContext_described_def filter_eval)
  have c1: "fst (matchFilesWithContext (posix ''/home'') sample_heap sample_fs ''/proj'' True filter_js_g) =
        [''/proj/src/a.js'', ''/proj/src/sub/b.js'']"
    by (simp add: matchFilesWithContext_def sample_absolute_files sample_relative_root filter_eval)
  have c2: "matchFilesWithContext_described (posix ''/home'') sample_heap sample_fs ''/proj'' True
        filter_js_g = [''/proj/src/a.js'', ''/proj/src/sub/b.js'', ''/proj/c.js'']"
    by (simp add: matchFilesWithContext_described_def sample_absolute_files sample_relative_root
        filter_eval)
  from a1 a2 b1 b2 c1 c2 show ?thesis by blast
qed

text \<open>
  Claim C6, amended. For a filter without the \<^verbatim>\<open>g\<close> and \<^verbatim>\<open>y\<close> flags,
  \<^verbatim>\<open>matchFilesWithContext(root, {recursive, filter})\<close> returns, in the iteration
  order of the file map, exactly the absolute paths of the files whose path relative to
  the query root is not empty and does not start with \<^verbatim>\<open>..\<close>, which when
  \<open>recursive\<close> is false holds no directory separator, and whose subject (\<^verbatim>\<open>./\<close>
  followed by the relative path with every backslash rewritten to a forward slash)
  holds a match of the filter; the filter object is left as it was.
\<close>

theorem matchFilesWithContext_filter:
  assumes "\<not> re_global flt" and "\<not> re_sticky flt"
  shows "matchFilesWithContext P h fs root recursive flt =
     (filter (\<lambda>file.
        fastPath_relative P root file \<noteq> []
        \<and> \<not> prefix ''..'' (fastPath_relative P root file)
        \<and> (recursive \<or> path_sep P \<notin> set (fastPath_relative P root file))
        \<and> re_exec flt (''./'' @ backslash_to_slash (fastPath_relative P root file)) 0 \<noteq> None)
       (map (fastPath_resolve P (rootDir fs)) (map fst (maps h (files fs)))),
      flt)"
  by (simp add: matchFilesWithContext_def matchFilesWithContext_loop_filter[OF assms]
      getAbsoluteFileIterator_def getFileIterator_def)

text \<open>
  Runs of C6: on the sample index the direct children of \<^verbatim>\<open>/proj/src\<close>, all that is
  below it and all that is below \<^verbatim>\<open>/proj\<close>; and the file with a backslash in its
  name.
\<close>

theorem matchFilesWithContext_filter_witness:
  "\<not> re_global filter_js_child \<and> \<not> re_sticky filter_js_child
   \<and> matchFilesWithContext (posix ''/home'') sample_heap sample_fs ''/proj/src'' False filter_js_child =
       ([''/proj/src/a.js''], filter_js_child)
   \<and> \<not> re_global filter_js \<and> \<not> re_sticky filter_js
   \<and> matchFilesWithContext (posix ''/home'') sample_heap sample_fs ''/proj/src'' True filter_js =
       ([''/proj/src/a.js'', ''/proj/src/sub/b.js''], filter_js)
   \<and> matchFilesWithContext (posix ''/home'') sample_heap sample_fs ''/proj'' True filter_js =
       ([''/proj/src/a.js'', ''/proj/src/sub/b.js'', ''/proj/c.js''], filter_js)
   \<and> \<not> re_global filter_a_b \<and> \<not> re_sticky filter_a_b
   \<and> matchFilesWithContext (posix ''/home'') back_heap sample_fs ''/proj'' False filter_a_b =
       ([''/proj/a'' @ [CHR 0x5C] @ ''b.js''], filter_a_b)"
proof -
  let ?P = "posix ''/home''"
  have files: "map (fastPath_resolve ?P (rootDir sample_fs)) (map fst (maps sample_heap (files sample_fs)))
      = [''/proj/src/a.js'', ''/proj/src/sub/b.js'', ''/proj/c.js'']"
    using sample_absolute_files[of "''/home''"]
    by (simp add: getAbsoluteFileIterator_def getFileIterator_def)
  have bfiles: "map (fastPath_resolve ?P (rootDir sample_fs)) (map fst (maps back_heap (files sample_fs)))
      = [''/proj/a'' @ [CHR 0x5C] @ ''b.js'']"
    using back_files(1)[of "''/home''"]
    by (simp add: getAbsoluteFileIterator_def getFileIterator_def)
  have f1: "\<not> re_global filter_js_child" "\<not> re_sticky filter_js_child"
    and f2: "\<not> re_global filter_js" "\<not> re_sticky filter_js"
    and f3: "\<not> re_global filter_a_b" "\<not> re_sticky filter_a_b"
    by (simp_all add: filter_js_child_def filter_js_def filter_a_b_def)
  have 1: "matchFilesWithContext ?P sample_heap sample_fs ''/proj/src'' False filter_js_child =
       ([''/proj/src/a.js''], filter_js_child)"
    unfolding matchFilesWithContext_filter[OF f1] files
    by (simp add: sample_relative filter_eval)
  have 2: "matchFilesWithContext ?P sample_heap sample_fs ''/proj/src'' True filter_js =
       ([''/proj/src/a.js'', ''/proj/src/sub/b.js''], filter_js)"
    unfolding matchFilesWithContext_filter[OF f2] files
    by (simp add: sample_relative filter_eval)
  have 3: "matchFilesWithContext ?P sample_heap sample_fs ''/proj'' True filter_js =
       ([''/proj/src/a.js'', ''/proj/src/sub/b.js'', ''/proj/c.js''], filter_js)"
    unfolding matchFilesWithContext_filter[OF f2] files
    by (simp add: sample_relative_root filter_eval)
  have 4: "matchFilesWithContext ?P back_heap sample_fs ''/proj'' False filter_a_b =
       ([''/proj/a'' @ [CHR 0x5C] @ ''b.js''], filter_a_b)"
    unfolding matchFilesWithContext_filter[OF f3] bfiles
    using back_files(2)[of "''/home''"] by (simp add: filter_eval)
  from f1 f2 f3 1 2 3 4 show ?thesis by blast
qed

section \<open>The snapshot\<close>

text \<open>
  Claim C7. For a well-formed index, \<^verbatim>\<open>getSerializableSnapshot()\<close> returns a new
  \<^verbatim>\<open>Map\<close> with the keys of the file map, in order, each with a newly allocated array
  that holds the elements of its tuple; taking it changes no object that existed. No
  later change to the objects that existed changes what the snapshot holds, and no
  change to the objects of the snapshot changes what the file map holds; this covers
  \<^verbatim>\<open>addOrModify\<close>, \<^verbatim>\<open>remove\<close> and \<^verbatim>\<open>bulkAddOrModify\<close> on the original index and
  on an index built on the snapshot. An index constructed from the snapshot with the
  same root directory answers every point query as the original does.
\<close>

theorem snapshot_independent_copy:
  assumes "wf_index h fs" and "getSerializableSnapshot h fs = (snap, h')"
  shows "Map_view h' snap = Map_view h (files fs)
    \<and> next_free h \<le> snap \<and> map snd (maps h' snap) = [next_free h ..< snap]
    \<and> (\<forall>a < next_free h. arrays h' a = arrays h a \<and> maps h' a = maps h a)
    \<and> (\<forall>h''. (\<forall>a \<ge> next_free h. arrays h'' a = arrays h' a \<and> maps h'' a = maps h' a)
          \<longrightarrow> Map_view h'' snap = Map_view h' snap)
    \<and> (\<forall>h''. (\<forall>a < next_free h. arrays h'' a = arrays h' a \<and> maps h'' a = maps h' a)
          \<longrightarrow> Map_view h'' (files fs) = Map_view h (files fs))
    \<and> (\<forall>p r c. Map_view (addOrModify P h' fs p r) snap = Map_view h' snap
          \<and> Map_view (snd (remove P h' fs p)) snap = Map_view h' snap
          \<and> Map_view (bulkAddOrModify h' fs c) snap = Map_view h' snap)
    \<and> (\<forall>p r c.
          Map_view (addOrModify P h' (constructor (rootDir fs) snap) p r) (files fs) =
            Map_view h (files fs)
          \<and> Map_view (snd (remove P h' (constructor (rootDir fs) snap) p)) (files fs) =
            Map_view h (files fs)
          \<and> Map_view (bulkAddOrModify h' (constructor (rootDir fs) snap) c) (files fs) =
            Map_view h (files fs))
    \<and> (\<forall>p. exists P h' (constructor (rootDir fs) snap) p = exists P h fs p
          \<and> getModuleName P H h' (constructor (rootDir fs) snap) p = getModuleName P H h fs p
          \<and> getSize P H h' (constructor (rootDir fs) snap) p = getSize P H h fs p
          \<and> getSha1 P H h' (constructor (rootDir fs) snap) p = getSha1 P H h fs p
          \<and> getDependencies P H h' (constructor (rootDir fs) snap) p = getDependencies P H h fs p
          \<and> linkStats P H h' (constructor (rootDir fs) snap) p = linkStats P H h fs p)"
proof -
  note S = snapshot_spec[OF assms]
  define fs' where "fs' = constructor (rootDir fs) snap"
  have fs': "files fs' = snap" "rootDir fs' = rootDir fs"
    by (simp_all add: fs'_def constructor_def)
  from assms(1) have own: "files fs < next_free h"
    and old: "\<And>k a. (k, a) \<in> set (maps h (files fs)) \<Longrightarrow> a < next_free h"
    by (auto simp: wf_index_def list_all_iff)
  from own S(1) have ne: "files fs \<noteq> snap" by simp
  have new: "\<And>k a. (k, a) \<in> set (maps h' snap) \<Longrightarrow> next_free h \<le> a"
  proof -
    fix k a assume "(k, a) \<in> set (maps h' snap)"
    then have "a \<in> set (map snd (maps h' snap))" by force
    then show "next_free h \<le> a" by (simp add: S(3))
  qed
  have copy: "Map_view h' snap = Map_view h (files fs)"
    by (simp add: Map_view_alt S(2) S(4))
  have kept: "\<forall>a < next_free h. arrays h' a = arrays h a \<and> maps h' a = maps h a"
    using S(1) by (simp add: S(5) S(6))
  have frame_snap: "Map_view h'' snap = Map_view h' snap"
    if "\<forall>a \<ge> next_free h. arrays h'' a = arrays h' a \<and> maps h'' a = maps h' a" for h''
    using that S(1) new by (intro Map_view_eqI) simp_all
  have frame_orig: "Map_view h'' (files fs) = Map_view h (files fs)"
    if "\<forall>a < next_free h. arrays h'' a = arrays h' a \<and> maps h'' a = maps h' a" for h''
    using that own old kept by (intro Map_view_eqI) simp_all
  have on_orig: "Map_view (addOrModify P h' fs p r) snap = Map_view h' snap
      \<and> Map_view (snd (remove P h' fs p)) snap = Map_view h' snap
      \<and> Map_view (bulkAddOrModify h' fs c) snap = Map_view h' snap" for p r c
    using own by (intro conjI frame_snap)
      (simp_all add: addOrModify_frame remove_frame bulkAddOrModify_frame)
  have on_snap: "Map_view (addOrModify P h' fs' p r) (files fs) = Map_view h (files fs)
      \<and> Map_view (snd (remove P h' fs' p)) (files fs) = Map_view h (files fs)
      \<and> Map_view (bulkAddOrModify h' fs' c) (files fs) = Map_view h (files fs)" for p r c
    using S(1) by (intro conjI frame_orig)
      (simp_all add: addOrModify_frame remove_frame bulkAddOrModify_frame fs')
  have "Map_view h' (files fs') = Map_view h (files fs)"
    by (simp add: fs' copy)
  then have answers: "exists P h' fs' p = exists P h fs p
      \<and> getModuleName P H h' fs' p = getModuleName P H h fs p
      \<and> getSize P H h' fs' p = getSize P H h fs p
      \<and> getSha1 P H h' fs' p = getSha1 P H h fs p
      \<and> getDependencies P H h' fs' p = getDependencies P H h fs p
      \<and> linkStats P H h' fs' p = linkStats P H h fs p" for p
    using fs'(2) by (rule same_view_same_answers)
  from copy S(1) S(3) kept frame_snap frame_orig on_orig on_snap answers
  show ?thesis unfolding fs'_def by blast
qed

text \<open>
  A run of C7 on the sample index: the snapshot is the \<^verbatim>\<open>Map\<close> at address 18 with
  copies at 15, 16 and 17.
\<close>

theorem snapshot_independent_copy_witness:
  "wf_index sample_heap sample_fs
   \<and> fst (getSerializableSnapshot sample_heap sample_fs) = 18
   \<and> Map_view (snd (getSerializableSnapshot sample_heap sample_fs)) 18 =
       [(''src/a.js'', [JStr ''A'', JNum 1000, JNum 42, JNum 0,
           JStr (''b.js'' @ [CHR 0x00] @ ''c.js''), JStr ''da39'', JNum 0]),
        (''src/sub/b.js'', [JUndefined, JNum 2000, JNum 7, JNum 0, JStr [], JNull, JNum 1]),
        (''c.js'', [JStr ''C'', JUndefined, JNum 9, JNum 0, JStr ''x.js'', JStr ''ffee'', JStr ''a.js''])]
   \<and> map snd (maps (snd (getSerializableSnapshot sample_heap sample_fs)) 18) = [15, 16, 17]
   \<and> Map_view (addOrModify (posix ''/home'') (snd (getSerializableSnapshot sample_heap sample_fs))
         sample_fs ''/proj/lib/d.js'' 14) 18 =
       Map_view (snd (getSerializableSnapshot sample_heap sample_fs)) 18
   \<and> Map_view (snd (remove (posix ''/home'') (snd (getSerializableSnapshot sample_heap sample_fs))
         (constructor ''/proj'' 18) ''src/a.js'')) (files sample_fs) =
       Map_view sample_heap (files sample_fs)
   \<and> getModuleName (posix ''/home'') H_layout (snd (getSerializableSnapshot sample_heap sample_fs))
         (constructor ''/proj'' 18) ''/proj/src/a.js'' = JStr ''A''
   \<and> linkStats (posix ''/home'') H_layout (snd (getSerializableSnapshot sample_heap sample_fs))
         (constructor ''/proj'' 18) ''src/sub/b.js'' =
       Inr (Some \<lparr>fileType = ''l'', modifiedTime = 2000\<rparr>)"
proof -
  let ?P = "posix ''/home''"
  let ?h' = "snd (getSerializableSnapshot sample_heap sample_fs)"
  have w: "wf_index sample_heap sample_fs" by (rule sample_wf)
  have s: "getSerializableSnapshot sample_heap sample_fs = (18, ?h')"
    using sample_snapshot_addr by (simp add: prod_eq_iff)
  note T = snapshot_independent_copy[OF w s, of ?P H_layout]
  have nf: "next_free sample_heap = 15" and rd: "rootDir sample_fs = ''/proj''"
    by (rule sample_index)+
  have up: "[15 ..< 18] = [15, 16, 17::nat]" by (simp add: upt_rec)
  have m: "getModuleName ?P H_layout sample_heap sample_fs ''/proj/src/a.js'' = JStr ''A''"
    by (simp add: getModuleName_def sample_found sample_tuples layout_eval)
  have l: "linkStats ?P H_layout sample_heap sample_fs ''src/sub/b.js'' =
       Inr (Some \<lparr>fileType = ''l'', modifiedTime = 2000\<rparr>)"
    by (simp add: linkStats_def sample_found sample_tuples layout_eval)
  from T have 1: "Map_view ?h' 18 = Map_view sample_heap (files sample_fs)" by blast
  from T have 2: "map snd (maps ?h' 18) = [15, 16, 17]" by (simp add: nf up)
  from T have 3: "Map_view (addOrModify ?P ?h' sample_fs ''/proj/lib/d.js'' 14) 18 = Map_view ?h' 18"
    by blast
  from T have 4: "Map_view (snd (remove ?P ?h' (constructor ''/proj'' 18) ''src/a.js''))
      (files sample_fs) = Map_view sample_heap (files sample_fs)"
    unfolding rd by blast
  from T have 5: "getModuleName ?P H_layout ?h' (constructor ''/proj'' 18) ''/proj/src/a.js'' = JStr ''A''"
    unfolding rd using m by simp
  from T have 6: "linkStats ?P H_layout ?h' (constructor ''/proj'' 18) ''src/sub/b.js'' =
       Inr (Some \<lparr>fileType = ''l'', modifiedTime = 2000\<rparr>)"
    unfolding rd using l by simp
  from w sample_snapshot_addr 1 2 3 4 5 6 show ?thesis
    by (simp add: sample_view)
qed

section \<open>The two-tier lookup\<close>

text \<open>
  Claim C8, as stated, fails for \<^verbatim>\<open>remove\<close>, which normalizes first and never looks
  the path up as given. In \<open>stray_heap\<close> the path \<^verbatim>\<open>a/../b.js\<close> is a key: a direct
  lookup hits, and \<^verbatim>\<open>exists\<close> is true, but \<^verbatim>\<open>remove\<close> returns \<^verbatim>\<open>null\<close>.
\<close>

theorem two_tier_lookup_counterexample:
  "Map_get (maps stray_heap (files sample_fs)) ''a/../b.js'' = Some 11
   \<and> exists (posix ''/home'') stray_heap sample_fs ''a/../b.js''
   \<and> fst (remove (posix ''/home'') stray_heap sample_fs ''a/../b.js'') = None"
  by (simp add: exists_def priv_getFileData_def remove_def priv_normalizePath_def
      Map_get_def stray_index sample_index posix_eval)

text \<open>
  Claim C8, amended. Each of the six point queries (\<^verbatim>\<open>exists\<close>, \<^verbatim>\<open>getModuleName\<close>,
  \<^verbatim>\<open>getSize\<close>, \<^verbatim>\<open>getSha1\<close>, \<^verbatim>\<open>getDependencies\<close>, \<^verbatim>\<open>linkStats\<close>) answers from
  the tuple stored under the path exactly as given when that path is a key, whatever its
  normalized form; only when it is not a key does the query answer from the tuple
  stored under the normalized path, and as for an unknown file when that is no key
  either. \<^verbatim>\<open>remove\<close> always looks up the normalized path, and nothing else. When
  every stored key is canonical, the tuple the two tiers settle on is the one stored
  under the normalized path.
\<close>

theorem two_tier_lookup:
  "(\<forall>m. Map_get (maps h (files fs)) p = Some m
          \<or> (Map_get (maps h (files fs)) p = None
             \<and> Map_get (maps h (files fs)) (priv_normalizePath P fs p) = Some m) \<longrightarrow>
        exists P h fs p
      \<and> getModuleName P H h fs p =
          (if js_index (arrays h m) (ID H) \<in> {JUndefined, JNull} then JNull
           else js_index (arrays h m) (ID H))
      \<and> getSize P H h fs p =
          (if js_index (arrays h m) (SIZE H) \<in> {JUndefined, JNull} then JNull
           else js_index (arrays h m) (SIZE H))
      \<and> getSha1 P H h fs p =
          (if js_index (arrays h m) (SHA1 H) \<in> {JUndefined, JNull} then JNull
           else js_index (arrays h m) (SHA1 H))
      \<and> (js_index (arrays h m) (DEPENDENCIES H) \<in> {JUndefined, JNull, JStr []} \<longrightarrow>
            getDependencies P H h fs p = Inr (Some []))
      \<and> (\<forall>s. js_index (arrays h m) (DEPENDENCIES H) = JStr s \<and> s \<noteq> [] \<longrightarrow>
            getDependencies P H h fs p = Inr (Some (js_split s (DEPENDENCY_DELIM H))))
      \<and> (\<forall>t. js_index (arrays h m) (MTIME H) = JNum t \<longrightarrow>
            linkStats P H h fs p =
              Inr (Some \<lparr>fileType = (if js_index (arrays h m) (SYMLINK H) = JNum 0 then ''f'' else ''l''),
                         modifiedTime = t\<rparr>))
      \<and> ((\<forall>t. js_index (arrays h m) (MTIME H) \<noteq> JNum t) \<longrightarrow>
            (\<exists>msg. linkStats P H h fs p = Inl (InvariantViolation msg))))
   \<and> (Map_get (maps h (files fs)) p = None
        \<and> Map_get (maps h (files fs)) (priv_normalizePath P fs p) = None \<longrightarrow>
        \<not> exists P h fs p \<and> getModuleName P H h fs p = JNull \<and> getSize P H h fs p = JNull
      \<and> getSha1 P H h fs p = JNull \<and> getDependencies P H h fs p = Inr None
      \<and> linkStats P H h fs p = Inr None)
   \<and> fst (remove P h fs p) = Map_get (maps h (files fs)) (priv_normalizePath P fs p)
   \<and> (canonical_keys P h fs \<longrightarrow>
        (\<forall>m. (Map_get (maps h (files fs)) p = Some m
              \<or> (Map_get (maps h (files fs)) p = None
                 \<and> Map_get (maps h (files fs)) (priv_normalizePath P fs p) = Some m))
            \<longleftrightarrow> Map_get (maps h (files fs)) (priv_normalizePath P fs p) = Some m))"
proof -
  have a: "Map_get (maps h (files fs)) p = Some m
          \<or> (Map_get (maps h (files fs)) p = None
             \<and> Map_get (maps h (files fs)) (priv_normalizePath P fs p) = Some m) \<Longrightarrow>
        exists P h fs p
      \<and> getModuleName P H h fs p =
          (if js_index (arrays h m) (ID H) \<in> {JUndefined, JNull} then JNull
           else js_index (arrays h m) (ID H))
      \<and> getSize P H h fs p =
          (if js_index (arrays h m) (SIZE H) \<in> {JUndefined, JNull} then JNull
           else js_index (arrays h m) (SIZE H))
      \<and> getSha1 P H h fs p =
          (if js_index (arrays h m) (SHA1 H) \<in> {JUndefined, JNull} then JNull
           else js_index (arrays h m) (SHA1 H))
      \<and> (js_index (arrays h m) (DEPENDENCIES H) \<in> {JUndefined, JNull, JStr []} \<longrightarrow>
            getDependencies P H h fs p = Inr (Some []))
      \<and> (\<forall>s. js_index (arrays h m) (DEPENDENCIES H) = JStr s \<and> s \<noteq> [] \<longrightarrow>
            getDependencies P H h fs p = Inr (Some (js_split s (DEPENDENCY_DELIM H))))
      \<and> (\<forall>t. js_index (arrays h m) (MTIME H) = JNum t \<longrightarrow>
            linkStats P H h fs p =
              Inr (Some \<lparr>fileType = (if js_index (arrays h m) (SYMLINK H) = JNum 0 then ''f'' else ''l''),
                         modifiedTime = t\<rparr>))
      \<and> ((\<forall>t. js_index (arrays h m) (MTIME H) \<noteq> JNum t) \<longrightarrow>
            (\<exists>msg. linkStats P H h fs p = Inl (InvariantViolation msg)))" for m
  proof -
    assume "Map_get (maps h (files fs)) p = Some m
          \<or> (Map_get (maps h (files fs)) p = None
             \<and> Map_get (maps h (files fs)) (priv_normalizePath P fs p) = Some m)"
    then have "priv_getFileData P h fs p = Some m" by (simp add: two_tier_found)
    from found_answers[OF this, of H] show ?thesis by blast
  qed
  have b: "Map_get (maps h (files fs)) p = None
        \<and> Map_get (maps h (files fs)) (priv_normalizePath P fs p) = None \<longrightarrow>
        \<not> exists P h fs p \<and> getModuleName P H h fs p = JNull \<and> getSize P H h fs p = JNull
      \<and> getSha1 P H h fs p = JNull \<and> getDependencies P H h fs p = Inr None
      \<and> linkStats P H h fs p = Inr None"
    using missing_answers[of P h fs p H] by (simp add: two_tier_missing)
  have c: "fst (remove P h fs p) = Map_get (maps h (files fs)) (priv_normalizePath P fs p)"
    by (simp add: remove_eq lookup_normalized_def split: option.splits)
  have d: "canonical_keys P h fs \<Longrightarrow>
        (Map_get (maps h (files fs)) p = Some m
              \<or> (Map_get (maps h (files fs)) p = None
                 \<and> Map_get (maps h (files fs)) (priv_normalizePath P fs p) = Some m))
            \<longleftrightarrow> Map_get (maps h (files fs)) (priv_normalizePath P fs p) = Some m" for m
    using two_tier_eq[of P h fs p] two_tier_found[of P h fs p m]
    by (simp add: lookup_normalized_def)
  from a b c d show ?thesis by blast
qed

text \<open>
  Runs of C8: a direct hit on a key that is not canonical, where the normalized path is
  no key and \<^verbatim>\<open>remove\<close> finds nothing; and on the sample index a miss followed by
  the lookup of the normalized path, and a path that neither tier finds.
\<close>

theorem two_tier_lookup_witness:
  "Map_get (maps stray_heap (files sample_fs)) ''a/../b.js'' = Some 11
   \<and> Map_get (maps stray_heap (files sample_fs))
        (priv_normalizePath (posix ''/home'') sample_fs ''a/../b.js'') = None
   \<and> exists (posix ''/home'') stray_heap sample_fs ''a/../b.js''
   \<and> getModuleName (posix ''/home'') H_layout stray_heap sample_fs ''a/../b.js'' = JStr ''A''
   \<and> getDependencies (posix ''/home'') H_layout stray_heap sample_fs ''a/../b.js'' = Inr (Some [])
   \<and> fst (remove (posix ''/home'') stray_heap sample_fs ''a/../b.js'') = None
   \<and> Map_get (maps sample_heap (files sample_fs)) ''/proj/src/a.js'' = None
   \<and> Map_get (maps sample_heap (files sample_fs))
        (priv_normalizePath (posix ''/home'') sample_fs ''/proj/src/a.js'') = Some 11
   \<and> exists (posix ''/home'') sample_heap sample_fs ''/proj/src/a.js''
   \<and> getModuleName (posix ''/home'') H_layout sample_heap sample_fs ''/proj/src/a.js'' = JStr ''A''
   \<and> linkStats (posix ''/home'') H_layout sample_heap sample_fs ''/proj/src/a.js'' =
        Inr (Some \<lparr>fileType = ''f'', modifiedTime = 1000\<rparr>)
   \<and> fst (remove (posix ''/home'') sample_heap sample_fs ''/proj/src/a.js'') = Some 11
   \<and> Map_get (maps sample_heap (files sample_fs)) ''nope.js'' = None
   \<and> Map_get (maps sample_heap (files sample_fs))
        (priv_normalizePath (posix ''/home'') sample_fs ''nope.js'') = None
   \<and> \<not> exists (posix ''/home'') sample_heap sample_fs ''nope.js''
   \<and> getSize (posix ''/home'') H_layout sample_heap sample_fs ''nope.js'' = JNull
   \<and> canonical_keys (posix ''/home'') sample_heap sample_fs"
proof -
  let ?P = "posix ''/home''"
  have s: "Map_get (maps stray_heap (files sample_fs)) ''a/../b.js'' = Some 11"
    by (simp add: Map_get_def stray_index sample_index)
  have sn: "Map_get (maps stray_heap (files sample_fs))
        (priv_normalizePath ?P sample_fs ''a/../b.js'') = None"
    by (simp add: stray_normal Map_get_def stray_index sample_index)
  have m: "Map_get (maps sample_heap (files sample_fs)) ''/proj/src/a.js'' = None"
    by (simp add: Map_get_def sample_index)
  have l: "Map_get (maps sample_heap (files sample_fs))
        (priv_normalizePath ?P sample_fs ''/proj/src/a.js'') = Some 11"
    by (simp add: priv_normalizePath_def Map_get_def sample_index posix_eval)
  have n: "Map_get (maps sample_heap (files sample_fs)) ''nope.js'' = None"
    by (simp add: Map_get_def sample_index)
  have nn: "Map_get (maps sample_heap (files sample_fs))
        (priv_normalizePath ?P sample_fs ''nope.js'') = None"
    by (simp add: priv_normalizePath_def Map_get_def sample_index posix_eval)
  have c: "canonical_keys ?P sample_heap sample_fs" by (rule sample_canonical)
  note S = two_tier_lookup[of stray_heap sample_fs "''a/../b.js''" ?P H_layout]
  note T = two_tier_lookup[of sample_heap sample_fs "''/proj/src/a.js''" ?P H_layout]
  note N = two_tier_lookup[of sample_heap sample_fs "''nope.js''" ?P H_layout]
  from S s have 1: "exists ?P stray_heap sample_fs ''a/../b.js''" by blast
  from S s have "getModuleName ?P H_layout stray_heap sample_fs ''a/../b.js'' =
      (if js_index (arrays stray_heap 11) (ID H_layout) \<in> {JUndefined, JNull} then JNull
       else js_index (arrays stray_heap 11) (ID H_layout))" by blast
  then have 2: "getModuleName ?P H_layout stray_heap sample_fs ''a/../b.js'' = JStr ''A''"
    by (simp add: stray_fields)
  from S s stray_fields(2)
  have 3: "getDependencies ?P H_layout stray_heap sample_fs ''a/../b.js'' = Inr (Some [])"
    by blast
  from S sn have 4: "fst (remove ?P stray_heap sample_fs ''a/../b.js'') = None" by simp
  from T m l have 5: "exists ?P sample_heap sample_fs ''/proj/src/a.js''" by blast
  from T m l have "getModuleName ?P H_layout sample_heap sample_fs ''/proj/src/a.js'' =
      (if js_index (arrays sample_heap 11) (ID H_layout) \<in> {JUndefined, JNull} then JNull
       else js_index (arrays sample_heap 11) (ID H_layout))" by blast
  then have 6: "getModuleName ?P H_layout sample_heap sample_fs ''/proj/src/a.js'' = JStr ''A''"
    by (simp add: sample_fields)
  from T m l have "\<forall>t. js_index (arrays sample_heap 11) (MTIME H_layout) = JNum t \<longrightarrow>
      linkStats ?P H_layout sample_heap sample_fs ''/proj/src/a.js'' =
        Inr (Some \<lparr>fileType = (if js_index (arrays sample_heap 11) (SYMLINK H_layout) = JNum 0
                                then ''f'' else ''l''), modifiedTime = t\<rparr>)" by blast
  then have 7: "linkStats ?P H_layout sample_heap sample_fs ''/proj/src/a.js'' =
        Inr (Some \<lparr>fileType = ''f'', modifiedTime = 1000\<rparr>)"
    by (simp add: sample_fields)
  from T l have 8: "fst (remove ?P sample_heap sample_fs ''/proj/src/a.js'') = Some 11" by simp
  from N n nn have 9: "\<not> exists ?P sample_heap sample_fs ''nope.js''
      \<and> getSize ?P H_layout sample_heap sample_fs ''nope.js'' = JNull" by blast
  from s sn 1 2 3 4 m l 5 6 7 8 n nn 9 c show ?thesis by blast
qed

section \<open>The unsupported operation\<close>

text \<open>
  Claim C9. \<^verbatim>\<open>getRealPath\<close> fails for every path, whether the path is in the file
  map or not: it throws and returns no value, and it leaves the store, hence the file
  map, as it was.
\<close>

theorem getRealPath_fails:
  "(\<exists>e. fst (getRealPath h fs p) = Inl e) \<and> snd (getRealPath h fs p) = h"
  by (simp add: getRealPath_def)

section \<open>Absent fields\<close>

text \<open>
  Claim C10. For a path whose tuple is found but whose id field (sha1 field) is absent,
  \<^verbatim>\<open>getModuleName\<close> (\<^verbatim>\<open>getSha1\<close>) returns \<^verbatim>\<open>null\<close>, as it does for a path that is
  not found at all: \<^verbatim>\<open>null\<close> from these getters does not tell the two apart, while
  \<^verbatim>\<open>exists\<close> is true for the first and false for the second.
\<close>

theorem null_getters_ambiguous:
  "(\<forall>m. priv_getFileData P h fs p = Some m \<and> js_index (arrays h m) (ID H) \<in> {JUndefined, JNull}
        \<longrightarrow> getModuleName P H h fs p = JNull \<and> exists P h fs p)
   \<and> (\<forall>m. priv_getFileData P h fs p = Some m \<and> js_index (arrays h m) (SHA1 H) \<in> {JUndefined, JNull}
        \<longrightarrow> getSha1 P H h fs p = JNull \<and> exists P h fs p)
   \<and> (priv_getFileData P h fs p = None
        \<longrightarrow> getModuleName P H h fs p = JNull \<and> getSha1 P H h fs p = JNull
            \<and> \<not> exists P h fs p)"
  by (auto simp: getModuleName_def getSha1_def exists_def field_or_null_def js_nullish_def)

text \<open>
  A run of C10 on the sample index: \<^verbatim>\<open>src/sub/b.js\<close> has neither id nor sha1, and
  \<^verbatim>\<open>nope.js\<close> is unknown.
\<close>

theorem null_getters_ambiguous_witness:
  "priv_getFileData (posix ''/home'') sample_heap sample_fs ''src/sub/b.js'' = Some 12
   \<and> js_index (arrays sample_heap 12) (ID H_layout) = JUndefined
   \<and> js_index (arrays sample_heap 12) (SHA1 H_layout) = JNull
   \<and> getModuleName (posix ''/home'') H_layout sample_heap sample_fs ''src/sub/b.js'' = JNull
   \<and> getSha1 (posix ''/home'') H_layout sample_heap sample_fs ''src/sub/b.js'' = JNull
   \<and> exists (posix ''/home'') sample_heap sample_fs ''src/sub/b.js''
   \<and> priv_getFileData (posix ''/home'') sample_heap sample_fs ''nope.js'' = None
   \<and> getModuleName (posix ''/home'') H_layout sample_heap sample_fs ''nope.js'' = JNull
   \<and> getSha1 (posix ''/home'') H_layout sample_heap sample_fs ''nope.js'' = JNull
   \<and> \<not> exists (posix ''/home'') sample_heap sample_fs ''nope.js''"
proof -
  let ?P = "posix ''/home''"
  note T = null_getters_ambiguous[of ?P sample_heap sample_fs _ H_layout]
  have b: "priv_getFileData ?P sample_heap sample_fs ''src/sub/b.js'' = Some 12" by (rule sample_found)
  have n: "priv_getFileData ?P sample_heap sample_fs ''nope.js'' = None" by (rule sample_found)
  have i: "js_index (arrays sample_heap 12) (ID H_layout) = JUndefined"
    and s: "js_index (arrays sample_heap 12) (SHA1 H_layout) = JNull"
    by (simp_all add: sample_tuples layout_eval)
  from T[of "''src/sub/b.js''"] b i s
  have 1: "getModuleName ?P H_layout sample_heap sample_fs ''src/sub/b.js'' = JNull
      \<and> getSha1 ?P H_layout sample_heap sample_fs ''src/sub/b.js'' = JNull
      \<and> exists ?P sample_heap sample_fs ''src/sub/b.js''" by simp
  from T[of "''nope.js''"] n
  have 2: "getModuleName ?P H_layout sample_heap sample_fs ''nope.js'' = JNull
      \<and> getSha1 ?P H_layout sample_heap sample_fs ''nope.js'' = JNull
      \<and> \<not> exists ?P sample_heap sample_fs ''nope.js''" by simp
  from b i s 1 n 2 show ?thesis by blast
qed

end
